theory Spec2Isabelle
  imports Complex_Main "HOL-Library.Sublist"
begin

section \<open>Python values used by the converter\<close>

text \<open>
  The converter \<^verbatim>\<open>convert_pokercraft_to_bink.py\<close> is embedded function by function.
  What the interpreter and its libraries do (string methods, \<^verbatim>\<open>int\<close>, \<^verbatim>\<open>float\<close>,
  \<^verbatim>\<open>round\<close>, float arithmetic, \<^verbatim>\<open>strptime\<close>) is modelled in this first part. A
  \<^typ>\<open>char\<close> is one code point below 256; \<^verbatim>\<open>upper\<close> and \<^verbatim>\<open>lower\<close> are exact on ASCII
  letters, and code points from 256 on are outside the model.
\<close>

subsection \<open>Exceptions\<close>

text \<open>The exception classes of the modelled code and of its environment (\<^verbatim>\<open>OSError\<close>
  and \<^verbatim>\<open>UnicodeError\<close> for what files and the output stream raise); all are subclasses
  of \<^verbatim>\<open>Exception\<close>. A raise is the value \<open>Inl e\<close>.\<close>

datatype error =
    ValueError | IndexError | OverflowError | TypeError | ZeroDivisionError
  | FileNotFoundError | OSError | UnicodeError

definition bind :: "error + 'a \<Rightarrow> ('a \<Rightarrow> error + 'b) \<Rightarrow> error + 'b" where
  "bind r f = (case r of Inl e \<Rightarrow> Inl e | Inr v \<Rightarrow> f v)"

subsection \<open>Strings\<close>

text \<open>\<^verbatim>\<open>str.isspace\<close>, \<^verbatim>\<open>str.strip\<close>, \<^verbatim>\<open>str.split()\<close> and the regular expression
  class \<^verbatim>\<open>\s\<close> agree below 256: tab, LF, VT, FF, CR, the separators 28..31, space,
  NEL (133) and the no-break space (160).\<close>

definition is_space :: "char \<Rightarrow> bool" where
  "is_space c = (of_char c \<in> {9, 10, 11, 12, 13, 28, 29, 30, 31, 32, 133, 160 :: int})"

text \<open>The parsers behind \<^verbatim>\<open>int\<close> and \<^verbatim>\<open>float\<close> turn the whitespace above 127 into
  spaces and then strip C whitespace: 28..31 are not skipped (\<^verbatim>\<open>int("\x1c5")\<close> raises).\<close>

definition is_c_space :: "char \<Rightarrow> bool" where
  "is_c_space c = (of_char c \<in> {9, 10, 11, 12, 13, 32, 133, 160 :: int})"

definition is_digit :: "char \<Rightarrow> bool" where
  "is_digit c = (48 \<le> (of_char c :: int) \<and> (of_char c :: int) \<le> 57)"

definition digit_val :: "char \<Rightarrow> int" where
  "digit_val c = of_char c - 48"

definition lstrip_with :: "(char \<Rightarrow> bool) \<Rightarrow> string \<Rightarrow> string" where
  "lstrip_with p s = dropWhile p s"

definition rstrip_with :: "(char \<Rightarrow> bool) \<Rightarrow> string \<Rightarrow> string" where
  "rstrip_with p s = rev (dropWhile p (rev s))"

definition strip_with :: "(char \<Rightarrow> bool) \<Rightarrow> string \<Rightarrow> string" where
  "strip_with p s = rstrip_with p (lstrip_with p s)"

definition py_strip :: "string \<Rightarrow> string" where
  "py_strip s = strip_with is_space s"

text \<open>\<^verbatim>\<open>s.split(sep)\<close> for a one-character separator: never empty, \<^verbatim>\<open>"".split(":")\<close>
  is \<^verbatim>\<open>[""]\<close>.\<close>

fun py_split :: "char \<Rightarrow> string \<Rightarrow> string list" where
  "py_split sep [] = [[]]"
| "py_split sep (c # cs) =
     (if c = sep then [] # py_split sep cs
      else (case py_split sep cs of
              [] \<Rightarrow> [[c]]
            | p # ps \<Rightarrow> (c # p) # ps))"

text \<open>\<^verbatim>\<open>s.split()\<close>: the maximal runs of non-whitespace.\<close>

fun split_ws :: "string \<Rightarrow> string \<Rightarrow> string list" where
  "split_ws cur [] = (if cur = [] then [] else [cur])"
| "split_ws cur (c # cs) =
     (if is_space c then (if cur = [] then split_ws [] cs else cur # split_ws [] cs)
      else split_ws (cur @ [c]) cs)"

fun py_join :: "string \<Rightarrow> string list \<Rightarrow> string" where
  "py_join sep [] = []"
| "py_join sep [x] = x"
| "py_join sep (x # y # ys) = x @ sep @ py_join sep (y # ys)"

text \<open>\<^verbatim>\<open>s.replace(c, "")\<close> for a one-character \<^verbatim>\<open>c\<close>.\<close>

definition py_remove :: "char \<Rightarrow> string \<Rightarrow> string" where
  "py_remove c s = filter (\<lambda>x. x \<noteq> c) s"

definition upper_char :: "char \<Rightarrow> char" where
  "upper_char c =
     (if 97 \<le> (of_char c :: int) \<and> (of_char c :: int) \<le> 122
      then char_of (of_char c - 32 :: int) else c)"

definition lower_char :: "char \<Rightarrow> char" where
  "lower_char c =
     (if 65 \<le> (of_char c :: int) \<and> (of_char c :: int) \<le> 90
      then char_of (of_char c + 32 :: int) else c)"

definition py_upper :: "string \<Rightarrow> string" where
  "py_upper s = map upper_char s"

definition py_lower :: "string \<Rightarrow> string" where
  "py_lower s = map lower_char s"

text \<open>\<^verbatim>\<open>sub in s\<close> on strings: \<^verbatim>\<open>sub\<close> occurs as a contiguous run.\<close>

fun py_in :: "string \<Rightarrow> string \<Rightarrow> bool" where
  "py_in sub [] = (sub = [])"
| "py_in sub (c # cs) = (prefix sub (c # cs) \<or> py_in sub cs)"

subsection \<open>Integers from text\<close>

text \<open>The grammar of a digit part: digits, with single underscores between digits.\<close>

fun digits_us :: "string \<Rightarrow> int list option" where
  "digits_us [] = None"
| "digits_us (c # cs) =
     (if \<not> is_digit c then None
      else (case cs of
              [] \<Rightarrow> Some [digit_val c]
            | d # ds \<Rightarrow>
                map_option (\<lambda>r. digit_val c # r)
                  (if d = CHR ''_'' then digits_us ds else digits_us cs)))"

definition digits_value :: "int list \<Rightarrow> int" where
  "digits_value ds = foldl (\<lambda>n d. n * 10 + d) 0 ds"

definition split_sign :: "string \<Rightarrow> int \<times> string" where
  "split_sign s =
     (case s of
        [] \<Rightarrow> (1, [])
      | c # cs \<Rightarrow> if c = CHR ''-'' then (- 1, cs) else if c = CHR ''+'' then (1, cs) else (1, s))"

text \<open>The default limit of \<^verbatim>\<open>sys.set_int_max_str_digits\<close>: a longer decimal string is a
  \<^verbatim>\<open>ValueError\<close>.\<close>

definition int_max_str_digits :: int where
  "int_max_str_digits = 4300"

definition py_int :: "string \<Rightarrow> error + int" where
  "py_int s =
     (case split_sign (strip_with is_c_space s) of
        (sg, t) \<Rightarrow>
          (case digits_us t of
             None \<Rightarrow> Inl ValueError
           | Some ds \<Rightarrow>
               if int (length ds) > int_max_str_digits then Inl ValueError
               else Inr (sg * digits_value ds)))"

subsection \<open>Floats\<close>

text \<open>
  A Python float is an IEEE 754 binary64 value: a finite one is the rational it denotes
  (the two zeros are one value, as under \<^verbatim>\<open>==\<close>), next to the infinities and NaN.
  Every operation rounds the exact result to the nearest binary64, ties to even.
\<close>

datatype pyfloat = Finite rat | PosInf | NegInf | NaN

text \<open>\<open>bit_length n\<close> is the number of binary digits of \<open>n > 0\<close>.\<close>

function bit_length :: "int \<Rightarrow> int" where
  "bit_length n = (if n \<le> 0 then 0 else 1 + bit_length (n div 2))"
  by pat_completeness auto
termination
  by (relation "measure nat") auto

declare bit_length.simps [simp del]

definition pow2 :: "int \<Rightarrow> rat" where
  "pow2 e = (if 0 \<le> e then of_int (2 ^ nat e) else 1 / of_int (2 ^ nat (- e)))"

text \<open>\<open>ilog2 x\<close> is the \<open>e\<close> with \<open>2 ^ e \<le> \<bar>x\<bar> < 2 ^ (e + 1)\<close>, for \<open>x \<noteq> 0\<close>.\<close>

definition ilog2 :: "rat \<Rightarrow> int" where
  "ilog2 x =
     (if 1 \<le> \<bar>x\<bar> then bit_length \<lfloor>\<bar>x\<bar>\<rfloor> - 1
      else - bit_length (\<lceil>1 / \<bar>x\<bar>\<rceil> - 1))"

definition round_half_even :: "rat \<Rightarrow> int" where
  "round_half_even r =
     (let f = \<lfloor>r\<rfloor>; d = r - of_int f
      in if d < 1 / 2 then f else if 1 / 2 < d then f + 1
         else if even f then f else f + 1)"

text \<open>Rounding an exact result to binary64: 53 significant bits, least exponent
  \<open>- 1074\<close>, overflow to an infinity from \<open>2 ^ 1024\<close> on.\<close>

definition float_overflow :: rat where
  "float_overflow = 2 ^ 1024"

definition rnd :: "rat \<Rightarrow> pyfloat" where
  "rnd x =
     (if x = 0 then Finite 0
      else
        let q = max (ilog2 x - 52) (- 1074);
            y = of_int (round_half_even (x / pow2 q)) * pow2 q
        in if float_overflow \<le> \<bar>y\<bar> then (if 0 < x then PosInf else NegInf) else Finite y)"

fun fadd :: "pyfloat \<Rightarrow> pyfloat \<Rightarrow> pyfloat" where
  "fadd (Finite a) (Finite b) = rnd (a + b)"
| "fadd NaN _ = NaN"
| "fadd _ NaN = NaN"
| "fadd PosInf NegInf = NaN"
| "fadd NegInf PosInf = NaN"
| "fadd PosInf _ = PosInf"
| "fadd NegInf _ = NegInf"
| "fadd _ PosInf = PosInf"
| "fadd _ NegInf = NegInf"

definition fsign :: "pyfloat \<Rightarrow> int" where
  "fsign x =
     (case x of Finite a \<Rightarrow> (if a < 0 then - 1 else if a = 0 then 0 else 1)
      | PosInf \<Rightarrow> 1 | NegInf \<Rightarrow> - 1 | NaN \<Rightarrow> 0)"

fun fmul :: "pyfloat \<Rightarrow> pyfloat \<Rightarrow> pyfloat" where
  "fmul (Finite a) (Finite b) = rnd (a * b)"
| "fmul NaN _ = NaN"
| "fmul _ NaN = NaN"
| "fmul x y =
     (if fsign x * fsign y = 0 then NaN
      else if 0 < fsign x * fsign y then PosInf else NegInf)"

text \<open>An int operand of a float operation is converted first; an int of magnitude
  \<open>2 ^ 1024 - 2 ^ 970\<close> or more is "too large to convert to float".\<close>

definition float_of_int :: "int \<Rightarrow> error + pyfloat" where
  "float_of_int i = (case rnd (of_int i) of Finite r \<Rightarrow> Inr (Finite r) | _ \<Rightarrow> Inl OverflowError)"

text \<open>\<^verbatim>\<open>a / b\<close> on two ints is the correctly rounded quotient; a quotient too large for
  a float is an \<^verbatim>\<open>OverflowError\<close>.\<close>

definition int_truediv :: "int \<Rightarrow> int \<Rightarrow> error + pyfloat" where
  "int_truediv a b =
     (if b = 0 then Inl ZeroDivisionError
      else (case rnd (of_int a / of_int b) of Finite r \<Rightarrow> Inr (Finite r) | _ \<Rightarrow> Inl OverflowError))"

text \<open>\<^verbatim>\<open>round(x, 2)\<close> on a float: the exact value is rounded half-even to hundredths and
  the decimal result is read back as a binary64; infinities and NaN round to themselves.\<close>

definition float_round2 :: "pyfloat \<Rightarrow> pyfloat" where
  "float_round2 x =
     (case x of Finite a \<Rightarrow> rnd (of_int (round_half_even (a * 100)) / 100) | _ \<Rightarrow> x)"

text \<open>\<^verbatim>\<open>float(s)\<close>: C whitespace stripped, a sign, then \<^verbatim>\<open>inf\<close>, \<^verbatim>\<open>infinity\<close> or
  \<^verbatim>\<open>nan\<close> in any case, or a decimal literal (digit parts around an optional point, an
  optional exponent), read with correct rounding.\<close>

definition pow10 :: "int \<Rightarrow> rat" where
  "pow10 e = (if 0 \<le> e then of_int (10 ^ nat e) else 1 / of_int (10 ^ nat (- e)))"

definition digits_opt :: "string \<Rightarrow> int list option" where
  "digits_opt s = (if s = [] then Some [] else digits_us s)"

definition mantissa_of :: "string \<Rightarrow> (int \<times> nat) option" where
  "mantissa_of mant =
     (let ip = takeWhile (\<lambda>c. c \<noteq> CHR ''.'') mant;
          fr = dropWhile (\<lambda>c. c \<noteq> CHR ''.'') mant
      in case fr of
           [] \<Rightarrow> map_option (\<lambda>ds. (digits_value ds, 0)) (digits_us ip)
         | _ # fp \<Rightarrow>
             if ip = [] \<and> fp = [] then None
             else (case (digits_opt ip, digits_opt fp) of
                     (Some ids, Some fds) \<Rightarrow> Some (digits_value (ids @ fds), length fds)
                   | _ \<Rightarrow> None))"

definition exponent_of :: "string \<Rightarrow> int option" where
  "exponent_of rest =
     (case rest of
        [] \<Rightarrow> Some 0
      | _ # r \<Rightarrow> (case split_sign r of
                    (es, et) \<Rightarrow> map_option (\<lambda>ds. es * digits_value ds) (digits_us et)))"

definition float_literal :: "string \<Rightarrow> rat option" where
  "float_literal t =
     (let is_e = (\<lambda>c. c = CHR ''e'' \<or> c = CHR ''E'');
          mant = takeWhile (\<lambda>c. \<not> is_e c) t;
          rest = dropWhile (\<lambda>c. \<not> is_e c) t
      in case exponent_of rest of
           None \<Rightarrow> None
         | Some ex \<Rightarrow>
             (case mantissa_of mant of
                None \<Rightarrow> None
              | Some (m, k) \<Rightarrow> Some (of_int m * pow10 (ex - int k))))"

definition py_float :: "string \<Rightarrow> error + pyfloat" where
  "py_float s =
     (case split_sign (strip_with is_c_space s) of
        (sg, t) \<Rightarrow>
          if py_lower t = ''inf'' \<or> py_lower t = ''infinity''
          then Inr (if sg < 0 then NegInf else PosInf)
          else if py_lower t = ''nan'' then Inr NaN
          else (case float_literal t of
                  None \<Rightarrow> Inl ValueError
                | Some r \<Rightarrow> Inr (rnd (of_int sg * r))))"

subsection \<open>Dynamically typed values\<close>

datatype pyval = PyStr string | PyInt int | PyFloat pyfloat

text \<open>Truth value testing: zero and the empty string are false, NaN is true.\<close>

fun py_truthy :: "pyval \<Rightarrow> bool" where
  "py_truthy (PyStr s) = (s \<noteq> [])"
| "py_truthy (PyInt i) = (i \<noteq> 0)"
| "py_truthy (PyFloat f) = (f \<noteq> Finite 0)"

fun py_add :: "pyval \<Rightarrow> pyval \<Rightarrow> error + pyval" where
  "py_add (PyInt a) (PyInt b) = Inr (PyInt (a + b))"
| "py_add (PyInt a) (PyFloat b) = bind (float_of_int a) (\<lambda>x. Inr (PyFloat (fadd x b)))"
| "py_add (PyFloat a) (PyInt b) = bind (float_of_int b) (\<lambda>y. Inr (PyFloat (fadd a y)))"
| "py_add (PyFloat a) (PyFloat b) = Inr (PyFloat (fadd a b))"
| "py_add (PyStr a) (PyStr b) = Inr (PyStr (a @ b))"
| "py_add _ _ = Inl TypeError"

text \<open>\<^verbatim>\<open>round(x, 2)\<close>: an int is returned as it is.\<close>

fun py_round2 :: "pyval \<Rightarrow> error + pyval" where
  "py_round2 (PyInt i) = Inr (PyInt i)"
| "py_round2 (PyFloat f) = Inr (PyFloat (float_round2 f))"
| "py_round2 (PyStr s) = Inl TypeError"

text \<open>\<^verbatim>\<open>xs[i]\<close> for \<^verbatim>\<open>i >= 0\<close>.\<close>

definition py_index :: "'a list \<Rightarrow> nat \<Rightarrow> error + 'a" where
  "py_index xs i = (if i < length xs then Inr (xs ! i) else Inl IndexError)"

subsection \<open>Decimal text of an int, dates\<close>

definition digit_char :: "int \<Rightarrow> char" where
  "digit_char d = char_of (48 + d)"

function dec_digits :: "int \<Rightarrow> string" where
  "dec_digits n = (if n < 10 then [digit_char n] else dec_digits (n div 10) @ [digit_char (n mod 10)])"
  by pat_completeness auto
termination
  by (relation "measure nat") auto

declare dec_digits.simps [simp del]

text \<open>\<^verbatim>\<open>str(i)\<close> on an int.\<close>

definition py_str_int :: "int \<Rightarrow> string" where
  "py_str_int i = (if i < 0 then CHR ''-'' # dec_digits (- i) else dec_digits i)"

definition month_abbrs :: "string list" where
  "month_abbrs = [''jan'', ''feb'', ''mar'', ''apr'', ''may'', ''jun'',
                  ''jul'', ''aug'', ''sep'', ''oct'', ''nov'', ''dec'']"

fun index_of :: "'a \<Rightarrow> 'a list \<Rightarrow> int option" where
  "index_of x [] = None"
| "index_of x (y # ys) = (if x = y then Some 0 else map_option (\<lambda>i. i + 1) (index_of x ys))"

definition is_leap :: "int \<Rightarrow> bool" where
  "is_leap y = (y mod 4 = 0 \<and> (y mod 100 \<noteq> 0 \<or> y mod 400 = 0))"

definition days_in_month :: "int \<Rightarrow> int \<Rightarrow> int" where
  "days_in_month y m =
     (if m = 2 then (if is_leap y then 29 else 28)
      else if m = 4 \<or> m = 6 \<or> m = 9 \<or> m = 11 then 30 else 31)"

text \<open>The day field of \<^verbatim>\<open>%d\<close>: \<^verbatim>\<open>3[0-1]|[1-2]\d|0[1-9]|[1-9]\<close>, in this order. (The
  fifth alternative, a space and a digit, matches nothing that the greedy \<^verbatim>\<open>\s+\<close> before it
  and the fourth do not.)\<close>

definition day_field :: "string \<Rightarrow> (int \<times> string) option" where
  "day_field r =
     (case r of
        [] \<Rightarrow> None
      | c0 # r1 \<Rightarrow>
          (case r1 of
             c1 # r2 \<Rightarrow>
               if (c0 = CHR ''3'' \<and> (c1 = CHR ''0'' \<or> c1 = CHR ''1''))
                  \<or> ((c0 = CHR ''1'' \<or> c0 = CHR ''2'') \<and> is_digit c1)
                  \<or> (c0 = CHR ''0'' \<and> is_digit c1 \<and> c1 \<noteq> CHR ''0'')
               then Some (digits_value [digit_val c0, digit_val c1], r2)
               else if is_digit c0 \<and> c0 \<noteq> CHR ''0'' then Some (digits_value [digit_val c0], r1)
               else None
           | [] \<Rightarrow>
               if is_digit c0 \<and> c0 \<noteq> CHR ''0'' then Some (digits_value [digit_val c0], r1)
               else None))"

text \<open>
  \<^verbatim>\<open>datetime.strptime(s, "%b %d %Y")\<close> in the C locale: a month abbreviation in any case,
  whitespace, the day, whitespace, exactly four digits, and nothing after them; then the
  date must exist (year 1 at least, the day within the month). The result is
  (year, month, day). Every failure is a \<^verbatim>\<open>ValueError\<close>.
\<close>

definition strptime_b_d_Y :: "string \<Rightarrow> error + (int \<times> int \<times> int)" where
  "strptime_b_d_Y s =
     (case index_of (py_lower (take 3 s)) month_abbrs of
        None \<Rightarrow> Inl ValueError
      | Some mi \<Rightarrow>
          let r = drop 3 s; r' = dropWhile is_space r
          in if r' = r then Inl ValueError
             else (case day_field r' of
                     None \<Rightarrow> Inl ValueError
                   | Some (day, t) \<Rightarrow>
                       let t' = dropWhile is_space t
                       in if t' = t \<or> length t' \<noteq> 4 \<or> \<not> list_all is_digit t'
                          then Inl ValueError
                          else
                            let year = digits_value (map digit_val t')
                            in if year < 1 \<or> days_in_month year (mi + 1) < day
                               then Inl ValueError
                               else Inr (year, mi + 1, day)))"

definition pad_zero :: "nat \<Rightarrow> int \<Rightarrow> string" where
  "pad_zero w n = replicate (w - length (dec_digits n)) (CHR ''0'') @ dec_digits n"

text \<open>\<^verbatim>\<open>strftime("%m/%d/%Y")\<close>.\<close>

definition strftime_m_d_Y :: "int \<times> int \<times> int \<Rightarrow> string" where
  "strftime_m_d_Y d =
     (case d of (year, month, day) \<Rightarrow>
        pad_zero 2 month @ ''/'' @ pad_zero 2 day @ ''/'' @ pad_zero 4 year)"

section \<open>The converter\<close>

subsection \<open>The world around a run\<close>

text \<open>
  What the HTML parser gives the converter: of the document, the rows
  \<^verbatim>\<open>find_all("tr", {"mat-row": True})\<close>; of a row, the cells
  \<^verbatim>\<open>find_all("td", {"mat-cell": True})\<close>; of a cell, its class list, its text
  \<^verbatim>\<open>get_text(strip=True)\<close> and, when the cell holds a \<^verbatim>\<open>span\<close> of class
  \<^verbatim>\<open>mat-tooltip-trigger\<close>, the stripped text of the first one.
\<close>

record cell =
  cell_classes :: "string list"
  cell_text :: string
  cell_tooltip :: "string option"

type_synonym row = "cell list"

text \<open>A line printed to standard output, by its content.\<close>

datatype log_entry =
    DateError string error
  | NoRowsWarning
  | SessionLine nat pyval pyval pyval
  | NoSessions
  | ConversionComplete nat string

text \<open>
  The state a run reads and changes, and the environment that decides what fails:
  \<^item> \<open>documents\<close>: for a path, what \<^verbatim>\<open>open(path, "r")\<close> and \<^verbatim>\<open>read\<close> raise, or the rows
    of the document stored there (a missing file is \<open>Inl FileNotFoundError\<close>);
  \<^item> \<open>csv_files\<close>: the CSV files written, a file being its list of records, the header
    first;
  \<^item> \<open>stdout\<close>: the lines printed so far;
  \<^item> \<open>current_year\<close>: the calendar year of \<^verbatim>\<open>datetime.now()\<close>;
  \<^item> \<open>print_error\<close>: what \<^verbatim>\<open>print\<close> raises on a line (a closed stream, a text the
    stream cannot encode), \<open>None\<close> when the line is written;
  \<^item> \<open>open_error\<close>: what \<^verbatim>\<open>open(path, "w")\<close> raises, \<open>None\<close> when the file is opened;
  \<^item> \<open>write_error\<close>: for a path and the records to write, the exception raised while
    writing or closing the opened file and the number of records that reached it,
    \<open>None\<close> when all are written.
\<close>

record world =
  documents :: "string \<Rightarrow> error + row list"
  csv_files :: "string \<rightharpoonup> pyval list list"
  stdout :: "log_entry list"
  current_year :: int
  print_error :: "log_entry \<Rightarrow> error option"
  open_error :: "string \<Rightarrow> error option"
  write_error :: "string \<Rightarrow> pyval list list \<Rightarrow> (error \<times> nat) option"

definition print :: "log_entry \<Rightarrow> world \<Rightarrow> (error + unit) \<times> world" where
  "print l w =
     (case print_error w l of
        Some e \<Rightarrow> (Inl e, w)
      | None \<Rightarrow> (Inr (), w\<lparr>stdout := stdout w @ [l]\<rparr>))"

text \<open>A statement that may raise, followed by \<^verbatim>\<open>return v\<close> (or by nothing more, the
  value of the block then being \<open>v\<close>).\<close>

definition and_return :: "(error + unit) \<times> world \<Rightarrow> 'a \<Rightarrow> (error + 'a) \<times> world" where
  "and_return r v = (case r of (Inl e, w) \<Rightarrow> (Inl e, w) | (Inr u, w) \<Rightarrow> (Inr v, w))"

subsection \<open>The parsing helpers\<close>

definition parse_duration :: "string \<Rightarrow> error + pyfloat" where
  "parse_duration duration_str =
     (let parts = py_split (CHR '':'') (py_strip duration_str)
      in bind (bind (py_index parts 0) py_int) (\<lambda>hours.
         bind (bind (py_index parts 1) py_int) (\<lambda>minutes.
         bind (if length parts > 2 then bind (py_index parts 2) py_int else Inr 0) (\<lambda>seconds.
         bind (int_truediv minutes 60) (\<lambda>mq.
         bind (float_of_int hours) (\<lambda>hf.
         bind (int_truediv seconds 3600) (\<lambda>sq.
         Inr (float_round2 (fadd (fadd hf mq) sq)))))))))"

definition parse_winloss :: "string \<Rightarrow> error + pyfloat" where
  "parse_winloss winloss_str =
     py_float (py_strip (py_remove (CHR '','') (py_remove (CHR ''$'') winloss_str)))"

definition parse_stakes :: "string \<Rightarrow> string" where
  "parse_stakes stakes_str = py_remove (CHR '' '') (py_remove (CHR ''$'') (py_strip stakes_str))"

text \<open>The \<^verbatim>\<open>try\<close> block of \<^verbatim>\<open>parse_date\<close>.\<close>

definition parse_date_try :: "string \<Rightarrow> int option \<Rightarrow> world \<Rightarrow> error + string" where
  "parse_date_try date_str year w =
     bind (py_index (py_split (CHR '','') date_str) 0) (\<lambda>p.
       let date_part = py_strip p;
           y = (case year of None \<Rightarrow> current_year w | Some y \<Rightarrow> y)
       in bind (strptime_b_d_Y (date_part @ '' '' @ py_str_int y)) (\<lambda>date_obj.
          Inr (strftime_m_d_Y date_obj)))"

text \<open>\<^verbatim>\<open>except Exception as e\<close>: print the input and the exception, return \<^verbatim>\<open>""\<close>. What
  the \<^verbatim>\<open>print\<close> of the handler raises leaves the function.\<close>

definition parse_date :: "string \<Rightarrow> int option \<Rightarrow> world \<Rightarrow> (error + string) \<times> world" where
  "parse_date date_str year w =
     (case parse_date_try date_str year w of
        Inr d \<Rightarrow> (Inr d, w)
      | Inl e \<Rightarrow> and_return (print (DateError date_str e) w) [])"

definition parse_game_type :: "string \<Rightarrow> string" where
  "parse_game_type table_name =
     (let table_upper = py_upper table_name
      in if py_in ''NLH'' table_upper \<or> py_in ''HOLDEM'' table_upper
            \<or> py_in ''HOLD'EM'' table_upper
         then ''Texas Hold'em''
         else if py_in ''PLO'' table_upper \<or> py_in ''OMAHA'' table_upper
         then ''Omaha''
         else ''Texas Hold'em'')"

text \<open>\<^verbatim>\<open>big_blind * 100\<close>: the int 100 is the float 100.0.\<close>

definition estimate_buyin_from_stakes :: "string \<Rightarrow> error + pyfloat" where
  "estimate_buyin_from_stakes stakes_str =
     (let parts = py_split (CHR ''/'') (py_remove (CHR ''$'') stakes_str)
      in bind (bind (py_index parts 1) py_float) (\<lambda>big_blind.
         Inr (float_round2 (fmul big_blind (Finite 100)))))"

subsection \<open>Session records\<close>

text \<open>
  The dict \<^verbatim>\<open>session\<close>: the code stores under nine keys only, each with values of one
  type, so the dict is a record of optional fields; a key that was never stored is
  \<open>None\<close>. \<^verbatim>\<open>Buyin\<close> and \<^verbatim>\<open>Cashout\<close> hold whatever \<^verbatim>\<open>default_buy_in\<close> is.
\<close>

record session =
  Date :: "string option"
  Stakes :: "string option"
  Table :: "string option"
  Game_Type :: "string option"
  Hands :: "string option"
  Duration :: "pyfloat option"
  Winloss :: "pyfloat option"
  Buyin :: "pyval option"
  Cashout :: "pyval option"

definition empty_session :: session where
  "empty_session =
     \<lparr>Date = None, Stakes = None, Table = None, Game_Type = None, Hands = None,
      Duration = None, Winloss = None, Buyin = None, Cashout = None\<rparr>"

text \<open>\<^verbatim>\<open>if session:\<close> is true of a dict with a key.\<close>

definition session_nonempty :: "session \<Rightarrow> bool" where
  "session_nonempty s =
     (Date s \<noteq> None \<or> Stakes s \<noteq> None \<or> Table s \<noteq> None \<or> Game_Type s \<noteq> None
      \<or> Hands s \<noteq> None \<or> Duration s \<noteq> None \<or> Winloss s \<noteq> None \<or> Buyin s \<noteq> None
      \<or> Cashout s \<noteq> None)"

definition get_str :: "string option \<Rightarrow> string \<Rightarrow> string" where
  "get_str v d = (case v of None \<Rightarrow> d | Some x \<Rightarrow> x)"

text \<open>\<^verbatim>\<open>session.get("Winloss", 0)\<close>: the default is the int 0.\<close>

definition winloss_or_0 :: "session \<Rightarrow> pyval" where
  "winloss_or_0 s = (case Winloss s of None \<Rightarrow> PyInt 0 | Some x \<Rightarrow> PyFloat x)"

subsection \<open>One cell, one row\<close>

text \<open>The body of \<^verbatim>\<open>for cell in cells\<close>: the first column class in the chain wins.\<close>

definition route_cell ::
  "int option \<Rightarrow> cell \<Rightarrow> session \<Rightarrow> world \<Rightarrow> (error + session) \<times> world" where
  "route_cell year c s w =
     (if ''mat-column-SessionStart'' \<in> set (cell_classes c) then
        (case cell_tooltip c of
           None \<Rightarrow> (Inr s, w)
         | Some t \<Rightarrow>
             (case parse_date (py_join '' '' (split_ws [] t)) year w of
                (Inl e, w') \<Rightarrow> (Inl e, w')
              | (Inr d, w') \<Rightarrow> (Inr (s\<lparr>Date := Some d\<rparr>), w')))
      else if ''mat-column-Stakes'' \<in> set (cell_classes c) then
        (Inr (s\<lparr>Stakes := Some (parse_stakes (cell_text c))\<rparr>), w)
      else if ''mat-column-Table'' \<in> set (cell_classes c) then
        (Inr (s\<lparr>Table := Some (cell_text c),
                 Game_Type := Some (parse_game_type (cell_text c))\<rparr>), w)
      else if ''mat-column-Hands'' \<in> set (cell_classes c) then
        (Inr (s\<lparr>Hands := Some (cell_text c)\<rparr>), w)
      else if ''mat-column-Duration'' \<in> set (cell_classes c) then
        (case parse_duration (cell_text c) of
           Inl e \<Rightarrow> (Inl e, w)
         | Inr d \<Rightarrow> (Inr (s\<lparr>Duration := Some d\<rparr>), w))
      else if ''mat-column-Winloss'' \<in> set (cell_classes c) then
        (case parse_winloss (cell_text c) of
           Inl e \<Rightarrow> (Inl e, w)
         | Inr x \<Rightarrow> (Inr (s\<lparr>Winloss := Some x\<rparr>), w))
      else (Inr s, w))"

fun scan_cells ::
  "int option \<Rightarrow> cell list \<Rightarrow> session \<Rightarrow> world \<Rightarrow> (error + session) \<times> world" where
  "scan_cells year [] s w = (Inr s, w)"
| "scan_cells year (c # cs) s w =
     (case route_cell year c s w of
        (Inl e, w') \<Rightarrow> (Inl e, w')
      | (Inr s', w') \<Rightarrow> scan_cells year cs s' w')"

text \<open>\<^verbatim>\<open>if default_buy_in:\<close> holds of a value that is not \<^verbatim>\<open>None\<close> and is true.\<close>

definition default_applies :: "pyval option \<Rightarrow> bool" where
  "default_applies default_buy_in =
     (case default_buy_in of None \<Rightarrow> False | Some d \<Rightarrow> py_truthy d)"

definition choose_buyin :: "pyval option \<Rightarrow> session \<Rightarrow> error + pyval" where
  "choose_buyin default_buy_in s =
     (if default_applies default_buy_in then Inr (the default_buy_in)
      else map_sum id PyFloat (estimate_buyin_from_stakes (get_str (Stakes s) [])))"

text \<open>The block under \<^verbatim>\<open>if session:\<close>, up to the \<^verbatim>\<open>append\<close>.\<close>

definition complete_session :: "pyval option \<Rightarrow> session \<Rightarrow> error + session" where
  "complete_session default_buy_in s =
     bind (choose_buyin default_buy_in s) (\<lambda>buyin.
     bind (py_add buyin (winloss_or_0 s)) (\<lambda>total.
     bind (py_round2 total) (\<lambda>cashout.
     Inr (s\<lparr>Buyin := Some buyin, Cashout := Some cashout\<rparr>))))"

definition session_line :: "nat \<Rightarrow> session \<Rightarrow> log_entry" where
  "session_line idx s =
     SessionLine (idx + 1) (the (Buyin s)) (winloss_or_0 s) (the (Cashout s))"

text \<open>The body of \<^verbatim>\<open>for idx, row in enumerate(rows)\<close>, on the accumulator
  \<^verbatim>\<open>sessions\<close>.\<close>

definition process_row ::
  "int option \<Rightarrow> pyval option \<Rightarrow> nat \<Rightarrow> row \<Rightarrow> session list \<Rightarrow> world
     \<Rightarrow> (error + session list) \<times> world" where
  "process_row year dflt idx r sessions w =
     (case scan_cells year r empty_session w of
        (Inl e, w') \<Rightarrow> (Inl e, w')
      | (Inr s, w') \<Rightarrow>
          if session_nonempty s then
            (case complete_session dflt s of
               Inl e \<Rightarrow> (Inl e, w')
             | Inr s' \<Rightarrow> and_return (print (session_line idx s') w') (sessions @ [s']))
          else (Inr sessions, w'))"

fun scan_rows ::
  "int option \<Rightarrow> pyval option \<Rightarrow> nat \<Rightarrow> row list \<Rightarrow> session list \<Rightarrow> world
     \<Rightarrow> (error + session list) \<times> world" where
  "scan_rows year dflt idx [] sessions w = (Inr sessions, w)"
| "scan_rows year dflt idx (r # rs) sessions w =
     (case process_row year dflt idx r sessions w of
        (Inl e, w') \<Rightarrow> (Inl e, w')
      | (Inr sessions', w') \<Rightarrow> scan_rows year dflt (idx + 1) rs sessions' w')"

subsection \<open>Writing the CSV file\<close>

definition fieldnames :: "string list" where
  "fieldnames =
     [''Date'', ''Duration'', ''Buyin'', ''Cashout'', ''Stakes'', ''Cash/Tourney'',
      ''Live/online'', ''Location'', ''Game Type'', ''Limit Type'', ''Expenses'',
      ''Bankroll'', ''Action Sold Percentage'', ''Notes'']"

definition get_val :: "pyval option \<Rightarrow> pyval \<Rightarrow> pyval" where
  "get_val v d = (case v of None \<Rightarrow> d | Some x \<Rightarrow> x)"

text \<open>The record written for one session, in the order of \<^verbatim>\<open>fieldnames\<close>.\<close>

definition csv_row :: "string \<Rightarrow> string \<Rightarrow> session \<Rightarrow> pyval list" where
  "csv_row location bankroll s =
     (let table = get_str (Table s) [];
          hands = get_str (Hands s) [];
          notes = (if table \<noteq> [] \<and> hands \<noteq> [] then table @ '' - '' @ hands @ '' hands'' else [])
      in [PyStr (get_str (Date s) []),
          get_val (map_option PyFloat (Duration s)) (PyFloat (Finite 0)),
          get_val (Buyin s) (PyFloat (Finite 0)),
          get_val (Cashout s) (PyFloat (Finite 0)),
          PyStr (get_str (Stakes s) []),
          PyStr ''Cash'',
          PyStr ''Online'',
          PyStr location,
          PyStr (get_str (Game_Type s) (''Texas Hold'em'')),
          PyStr ''No Limit'',
          PyFloat (Finite 0),
          PyStr bankroll,
          PyFloat (Finite 0),
          PyStr notes])"

text \<open>The \<^verbatim>\<open>with open(output_csv, "w", ...)\<close> block: the header, then one record per
  session.\<close>

definition write_csv ::
  "string \<Rightarrow> string \<Rightarrow> string \<Rightarrow> session list \<Rightarrow> world \<Rightarrow> (error + unit) \<times> world" where
  "write_csv output_csv location bankroll sessions w =
     (case open_error w output_csv of
        Some e \<Rightarrow> (Inl e, w)
      | None \<Rightarrow>
          let records = map PyStr fieldnames # map (csv_row location bankroll) sessions
          in case write_error w output_csv records of
               Some (e, n) \<Rightarrow>
                 (Inl e, w\<lparr>csv_files := (csv_files w)(output_csv \<mapsto> take n records)\<rparr>)
             | None \<Rightarrow> (Inr (), w\<lparr>csv_files := (csv_files w)(output_csv \<mapsto> records)\<rparr>))"

subsection \<open>The conversion\<close>

definition convert_pokercraft_to_bink ::
  "string \<Rightarrow> string \<Rightarrow> int option \<Rightarrow> pyval option \<Rightarrow> string \<Rightarrow> string \<Rightarrow> world
     \<Rightarrow> (error + session list) \<times> world" where
  "convert_pokercraft_to_bink html_file output_csv year default_buy_in location bankroll w =
     (case documents w html_file of
        Inl e \<Rightarrow> (Inl e, w)
      | Inr rows \<Rightarrow>
          if rows = [] then and_return (print NoRowsWarning w) []
          else
            (case scan_rows year default_buy_in 0 rows [] w of
               (Inl e, w') \<Rightarrow> (Inl e, w')
             | (Inr sessions, w') \<Rightarrow>
                 if sessions = [] then and_return (print NoSessions w') []
                 else
                   (case write_csv output_csv location bankroll sessions w' of
                      (Inl e, w'') \<Rightarrow> (Inl e, w'')
                    | (Inr u, w'') \<Rightarrow>
                        and_return (print (ConversionComplete (length sessions) output_csv) w'')
                          sessions)))"

section \<open>Notions of the specification\<close>

text \<open>The column of a cell: the first class of the chain in \<open>route_cell\<close> that the cell
  carries.\<close>

datatype column = ColSessionStart | ColStakes | ColTable | ColHands | ColDuration | ColWinloss

definition cell_column :: "cell \<Rightarrow> column option" where
  "cell_column c =
     (if ''mat-column-SessionStart'' \<in> set (cell_classes c) then Some ColSessionStart
      else if ''mat-column-Stakes'' \<in> set (cell_classes c) then Some ColStakes
      else if ''mat-column-Table'' \<in> set (cell_classes c) then Some ColTable
      else if ''mat-column-Hands'' \<in> set (cell_classes c) then Some ColHands
      else if ''mat-column-Duration'' \<in> set (cell_classes c) then Some ColDuration
      else if ''mat-column-Winloss'' \<in> set (cell_classes c) then Some ColWinloss
      else None)"

text \<open>A cell yields a field when it is in a column, a session-start cell only with its
  tooltip element.\<close>

definition yields_field :: "cell \<Rightarrow> bool" where
  "yields_field c =
     (case cell_column c of
        None \<Rightarrow> False
      | Some k \<Rightarrow> k = ColSessionStart \<longrightarrow> cell_tooltip c \<noteq> None)"

text \<open>The stakes of a row: the normalised text of its last cell in the stakes column.\<close>

definition row_stakes :: "row \<Rightarrow> string option" where
  "row_stakes r =
     (case filter (\<lambda>c. cell_column c = Some ColStakes) r of
        [] \<Rightarrow> None
      | c # cs \<Rightarrow> Some (parse_stakes (cell_text (last (c # cs)))))"

text \<open>A fully populated row has a cell in each of the six columns, the session-start
  cells with their tooltip element.\<close>

definition fully_populated :: "row \<Rightarrow> bool" where
  "fully_populated r =
     (list_all (\<lambda>k. list_ex (\<lambda>c. cell_column c = Some k) r)
        [ColSessionStart, ColStakes, ColTable, ColHands, ColDuration, ColWinloss]
      \<and> list_all (\<lambda>c. cell_column c = Some ColSessionStart \<longrightarrow> cell_tooltip c \<noteq> None) r)"

text \<open>The numeric texts of a row are well formed when every duration and every win/loss
  cell parses.\<close>

definition numbers_parse :: "row \<Rightarrow> bool" where
  "numbers_parse r =
     list_all (\<lambda>c.
        (cell_column c = Some ColDuration \<longrightarrow> \<not> isl (parse_duration (cell_text c)))
        \<and> (cell_column c = Some ColWinloss \<longrightarrow> \<not> isl (parse_winloss (cell_text c)))) r"



definition restake_cell :: "(string \<Rightarrow> string) \<Rightarrow> cell \<Rightarrow> cell" where
  "restake_cell f c =
     (if cell_column c = Some ColStakes then c\<lparr>cell_text := f (cell_text c)\<rparr> else c)"

definition restake :: "(string \<Rightarrow> string) \<Rightarrow> row \<Rightarrow> row" where
  "restake f r = map (restake_cell f) r"


definition erase_stakes :: "session \<Rightarrow> session" where
  "erase_stakes s = s\<lparr>Stakes := None\<rparr>"


definition same_but_stakes :: "session \<Rightarrow> session \<Rightarrow> bool" where
  "same_but_stakes s t =
     ((Stakes s = None \<longleftrightarrow> Stakes t = None) \<and> Date s = Date t \<and> Table s = Table t
      \<and> Game_Type s = Game_Type t \<and> Hands s = Hands t \<and> Duration s = Duration t
      \<and> Winloss s = Winloss t \<and> Buyin s = Buyin t \<and> Cashout s = Cashout t)"

text \<open>The same run on another document: the world with the rows at a path replaced.\<close>

definition with_document :: "string \<Rightarrow> row list \<Rightarrow> world \<Rightarrow> world" where
  "with_document path rows w = w\<lparr>documents := (documents w)(path := Inr rows)\<rparr>"

text \<open>Nothing but the printed output differs between two worlds.\<close>

definition frame :: "world \<Rightarrow> world \<Rightarrow> bool" where
  "frame w w' =
     (documents w' = documents w \<and> csv_files w' = csv_files w
      \<and> current_year w' = current_year w \<and> print_error w' = print_error w
      \<and> open_error w' = open_error w \<and> write_error w' = write_error w)"

text \<open>Two worlds with the same clock and the same faults.\<close>

definition same_env :: "world \<Rightarrow> world \<Rightarrow> bool" where
  "same_env w w' =
     (current_year w' = current_year w \<and> print_error w' = print_error w
      \<and> open_error w' = open_error w \<and> write_error w' = write_error w)"

text \<open>What the environment lets through: every printed line; every date error line; the
  whole of a CSV file at a path.\<close>

definition prints_all :: "world \<Rightarrow> bool" where
  "prints_all w = (\<forall>l. print_error w l = None)"

definition prints_date_errors :: "world \<Rightarrow> bool" where
  "prints_date_errors w = (\<forall>t e. print_error w (DateError t e) = None)"

definition writes_all :: "world \<Rightarrow> string \<Rightarrow> bool" where
  "writes_all w path = (\<forall>records. write_error w path records = None)"

text \<open>A default buy-in that is a float, or an int within the range of the floats.\<close>

definition numeric_default :: "pyval option \<Rightarrow> bool" where
  "numeric_default dflt =
     (case dflt of
        Some (PyFloat x) \<Rightarrow> True
      | Some (PyInt i) \<Rightarrow> \<not> isl (float_of_int i)
      | _ \<Rightarrow> False)"

text \<open>The session holds what a cell of column \<open>k\<close> stores.\<close>

fun has_field :: "column \<Rightarrow> session \<Rightarrow> bool" where
  "has_field ColSessionStart s = (Date s \<noteq> None)"
| "has_field ColStakes s = (Stakes s \<noteq> None)"
| "has_field ColTable s = (Table s \<noteq> None \<and> Game_Type s \<noteq> None)"
| "has_field ColHands s = (Hands s \<noteq> None)"
| "has_field ColDuration s = (Duration s \<noteq> None)"
| "has_field ColWinloss s = (Winloss s \<noteq> None)"

definition py_lstrip :: "string \<Rightarrow> string" where
  "py_lstrip s = lstrip_with is_space s"

definition py_rstrip :: "string \<Rightarrow> string" where
  "py_rstrip s = rstrip_with is_space s"

text \<open>Hours, minutes and seconds as decimal hours:
  \<^verbatim>\<open>round(hours + minutes / 60 + seconds / 3600, 2)\<close> in the interpreter's arithmetic.\<close>

definition decimal_hours :: "int \<Rightarrow> int \<Rightarrow> int \<Rightarrow> error + pyfloat" where
  "decimal_hours hours minutes seconds =
     bind (int_truediv minutes 60) (\<lambda>mq.
     bind (float_of_int hours) (\<lambda>hf.
     bind (int_truediv seconds 3600) (\<lambda>sq.
     Inr (float_round2 (fadd (fadd hf mq) sq)))))"

text \<open>Case-insensitive occurrence, on the table name itself: two characters match when
  they are equal or the two cases of one letter.\<close>

definition is_lower :: "char \<Rightarrow> bool" where
  "is_lower c = (97 \<le> (of_char c :: int) \<and> (of_char c :: int) \<le> 122)"

definition same_letter :: "char \<Rightarrow> char \<Rightarrow> bool" where
  "same_letter c d =
     (c = d \<or> (is_lower c \<and> d = upper_char c) \<or> (is_lower d \<and> c = upper_char d))"

fun occurs_ci :: "string \<Rightarrow> string \<Rightarrow> bool" where
  "occurs_ci kw [] = (kw = [])"
| "occurs_ci kw (c # cs) =
     ((length kw \<le> length (c # cs) \<and> list_all2 same_letter kw (take (length kw) (c # cs)))
      \<or> occurs_ci kw cs)"

section \<open>Example inputs\<close>

definition column_cell :: "string \<Rightarrow> string \<Rightarrow> cell" where
  "column_cell col t = \<lparr>cell_classes = [''mat-cell'', col], cell_text = t, cell_tooltip = None\<rparr>"

definition date_cell :: "string \<Rightarrow> cell" where
  "date_cell t =
     \<lparr>cell_classes = [''mat-cell'', ''mat-column-SessionStart''], cell_text = t,
      cell_tooltip = Some t\<rparr>"

definition full_row :: row where
  "full_row =
     [date_cell ''Nov 10, 23:00'',
      column_cell ''mat-column-Stakes'' ''$0.05/ $0.1'',
      column_cell ''mat-column-Table'' ''NLH 6-Max'',
      column_cell ''mat-column-Hands'' ''120'',
      column_cell ''mat-column-Duration'' ''01:30:00'',
      column_cell ''mat-column-Winloss'' ''-$5.00'']"

definition stakes_row :: row where
  "stakes_row = [column_cell ''mat-column-Stakes'' ''$0.05/$0.1'']"

definition table_row :: row where
  "table_row = [column_cell ''mat-column-Table'' ''PLO Omaha Hi'']"

definition unmarked_row :: row where
  "unmarked_row = [column_cell ''mat-column-Profit'' ''1.00'']"


definition bad_duration_row :: row where
  "bad_duration_row =
     [column_cell ''mat-column-Stakes'' ''$0.05/$0.1'',
      column_cell ''mat-column-Duration'' ''1h30'']"

definition stakes_session :: session where
  "stakes_session =
     empty_session\<lparr>Stakes := Some ''0.05/0.1'', Buyin := Some (PyFloat (Finite 10)),
                    Cashout := Some (PyFloat (Finite 10))\<rparr>"

definition full_session :: session where
  "full_session =
     \<lparr>Date = Some ''11/10/2024'', Stakes = Some ''0.05/0.1'', Table = Some ''NLH 6-Max'',
      Game_Type = Some ''Texas Hold'em'', Hands = Some ''120'',
      Duration = Some (Finite (3 / 2)), Winloss = Some (Finite (- 5)),
      Buyin = Some (PyFloat (Finite 10)), Cashout = Some (PyFloat (Finite 5))\<rparr>"

definition table_session :: session where
  "table_session =
     empty_session\<lparr>Table := Some ''PLO Omaha Hi'', Game_Type := Some ''Omaha'',
                    Buyin := Some (PyFloat (Finite 50)), Cashout := Some (PyFloat (Finite 50))\<rparr>"



text \<open>A world in which the document is at the driver's path, every line is printed and
  every file but the one of the empty path can be opened and written.\<close>

definition world_of :: "row list \<Rightarrow> world" where
  "world_of rows =
     \<lparr>documents = (\<lambda>p. if p = ''pokercraft_sessions.html'' then Inr rows
                         else Inl FileNotFoundError),
      csv_files = Map.empty, stdout = [], current_year = 2026,
      print_error = (\<lambda>l. None),
      open_error = (\<lambda>p. if p = [] then Some FileNotFoundError else None),
      write_error = (\<lambda>p records. None)\<rparr>"


definition closed_stream :: "log_entry \<Rightarrow> error option" where
  "closed_stream l = Some ValueError"

definition ten_fifty :: "string \<Rightarrow> string" where
  "ten_fifty t = ''$0.25/$0.5''"



definition bad_stakes_row :: row where
  "bad_stakes_row =
     [column_cell ''mat-column-Stakes'' ''abc'', column_cell ''mat-column-Table'' ''PLO Omaha Hi'']"

definition bad_stakes_session :: session where
  "bad_stakes_session = table_session\<lparr>Stakes := Some ''abc''\<rparr>"

text \<open>The driver's call, with \<^verbatim>\<open>default_buy_in\<close> left open.\<close>

definition run_on :: "pyval option \<Rightarrow> row list \<Rightarrow> (error + session list) \<times> world" where
  "run_on dflt rows =
     convert_pokercraft_to_bink ''pokercraft_sessions.html'' ''bink_import.csv'' (Some 2024) dflt
       ''Natural8'' ''Natural8'' (world_of rows)"

section \<open>Evaluation and basic facts\<close>

text \<open>The overflow threshold as a numeral, for evaluation.\<close>

lemma float_overflow_code [code]:
  "float_overflow = 179769313486231590772930519078902473361797697894230657273430081157732675805500963132708477322407536021120113879871393357658789768814416622492847430639474124377767893424865485276302219601246094119453082952085005768838150682342462881473913110540827237163350510684586298239947245938479716304835356329624224137216"
  by (simp add: float_overflow_def)

lemma bind_Inl [simp]: "bind (Inl e) f = Inl e"
  by (simp add: bind_def)

lemma bind_Inr [simp]: "bind (Inr v) f = f v"
  by (simp add: bind_def)

lemma bind_eq_Inr: "bind r f = Inr y \<longleftrightarrow> (\<exists>v. r = Inr v \<and> f v = Inr y)"
  by (cases r) simp_all

lemma bind_eq_Inl: "bind r f = Inl e \<longleftrightarrow> r = Inl e \<or> (\<exists>v. r = Inr v \<and> f v = Inl e)"
  by (cases r) simp_all

lemma and_return_Inl [simp]: "and_return (Inl e, w) v = (Inl e, w)"
  by (simp add: and_return_def)

lemma and_return_Inr [simp]: "and_return (Inr u, w) v = (Inr v, w)"
  by (simp add: and_return_def)

lemma and_return_eq_Inr: "and_return r v = (Inr x, w') \<longleftrightarrow> r = (Inr (), w') \<and> x = v"
  by (cases r; cases "fst r") auto

lemma and_return_eq_Inl: "and_return r v = (Inl e, w') \<longleftrightarrow> r = (Inl e, w')"
  by (cases r; cases "fst r") auto

lemma snd_and_return [simp]: "snd (and_return r v) = snd r"
  by (cases r; cases "fst r") auto

lemma isl_and_return [simp]: "isl (fst (and_return r v)) = isl (fst r)"
  by (cases r; cases "fst r") auto

lemma print_accepted: "print_error w l = None \<Longrightarrow> print l w = (Inr (), w\<lparr>stdout := stdout w @ [l]\<rparr>)"
  by (simp add: print_def)

lemma print_rejected: "print_error w l = Some e \<Longrightarrow> print l w = (Inl e, w)"
  by (simp add: print_def)

lemma frame_refl [simp]: "frame w w"
  by (simp add: frame_def)

lemma frame_trans: "frame w w' \<Longrightarrow> frame w' w'' \<Longrightarrow> frame w w''"
  by (simp add: frame_def)

lemma print_frame: "print l w = (r, w') \<Longrightarrow> frame w w'"
  by (auto simp: print_def frame_def split: option.splits)

lemma and_return_print_frame: "and_return (print l w) v = (r, w') \<Longrightarrow> frame w w'"
  by (auto simp: print_def frame_def split: option.splits)

lemma world_of_facts:
  "documents (world_of rows) ''pokercraft_sessions.html'' = Inr rows"
  "prints_all (world_of rows)" "prints_date_errors (world_of rows)"
  "writes_all (world_of rows) path" "open_error (world_of rows) ''bink_import.csv'' = None"
  "print_error (world_of rows) l = None"
  by (simp_all add: world_of_def prints_all_def prints_date_errors_def writes_all_def)

subsection \<open>Runs on the example inputs\<close>

lemma run_stakes_row: "fst (run_on None [stakes_row]) = Inr [stakes_session]"
  by code_simp

lemma run_stakes_row_zero: "fst (run_on (Some (PyInt 0)) [stakes_row]) = Inr [stakes_session]"
  by code_simp

lemma run_table_row_default:
  "fst (run_on (Some (PyFloat (Finite 50))) [table_row]) = Inr [table_session]"
  by code_simp

lemma run_full_row: "fst (run_on None [full_row]) = Inr [full_session]"
  by code_simp


section \<open>Buy-in and cash-out of the sessions of a run\<close>

lemma complete_session_fields:
  assumes "complete_session dflt s = Inr s'"
  shows "\<exists>b c. choose_buyin dflt s = Inr b \<and> bind (py_add b (winloss_or_0 s)) py_round2 = Inr c
           \<and> s' = s\<lparr>Buyin := Some b, Cashout := Some c\<rparr>"
  using assms unfolding complete_session_def
  by (auto simp: bind_eq_Inr)

text \<open>What holds of every completed session holds of every session in the accumulator.\<close>

lemma process_row_invariant:
  assumes "process_row year dflt idx r acc w = (Inr sessions, w')"
    and "\<forall>s \<in> set acc. P s"
    and "\<And>s s'. complete_session dflt s = Inr s' \<Longrightarrow> P s'"
  shows "\<forall>s \<in> set sessions. P s"
  using assms
  by (auto simp: process_row_def and_return_eq_Inr split: prod.splits sum.splits if_splits)

lemma scan_rows_invariant:
  assumes "scan_rows year dflt idx rs acc w = (Inr sessions, w')"
    and "\<forall>s \<in> set acc. P s"
    and "\<And>s s'. complete_session dflt s = Inr s' \<Longrightarrow> P s'"
  shows "\<forall>s \<in> set sessions. P s"
  using assms(1,2)
proof (induction rs arbitrary: idx acc w)
  case Nil
  then show ?case by simp
next
  case (Cons r rs)
  obtain res w1 where pr: "process_row year dflt idx r acc w = (res, w1)"
    by (cases "process_row year dflt idx r acc w")
  show ?case
  proof (cases res)
    case (Inl e)
    with Cons.prems pr show ?thesis by simp
  next
    case (Inr acc')
    with Cons.prems pr have run: "scan_rows year dflt (idx + 1) rs acc' w1 = (Inr sessions, w')"
      by simp
    have "\<forall>s \<in> set acc'. P s"
      using process_row_invariant[OF pr[unfolded Inr] Cons.prems(2)] assms(3) by blast
    then show ?thesis using Cons.IH[OF run] by blast
  qed
qed

lemma convert_sessions_invariant:
  assumes "fst (convert_pokercraft_to_bink html_file output_csv year dflt location bankroll w)
             = Inr sessions"
    and "\<And>s s'. complete_session dflt s = Inr s' \<Longrightarrow> P s'"
  shows "\<forall>s \<in> set sessions. P s"
proof (cases "documents w html_file")
  case (Inl e)
  with assms(1) show ?thesis by (simp add: convert_pokercraft_to_bink_def)
next
  case Some: (Inr rows)
  show ?thesis
  proof (cases "rows = []")
    case True
    with assms(1) Some show ?thesis
      by (cases "print NoRowsWarning w"; cases "fst (print NoRowsWarning w)")
        (auto simp: convert_pokercraft_to_bink_def)
  next
    case False
    obtain res w1 where sr: "scan_rows year dflt 0 rows [] w = (res, w1)"
      by (cases "scan_rows year dflt 0 rows [] w")
    show ?thesis
    proof (cases res)
      case (Inl e)
      with assms(1) Some False sr show ?thesis by (simp add: convert_pokercraft_to_bink_def)
    next
      case (Inr ss)
      with sr have "\<forall>s \<in> set ss. P s"
        using scan_rows_invariant[of year dflt 0 rows "[]" w ss w1 P] assms(2) by auto
      moreover have "sessions = ss \<or> sessions = []"
        using assms(1) Some False sr Inr
        by (auto simp: convert_pokercraft_to_bink_def and_return_def
            split: if_splits prod.splits sum.splits)
      ultimately show ?thesis by auto
    qed
  qed
qed

text \<open>
  Claim C1. Every session record that a run of \<open>convert_pokercraft_to_bink\<close> returns has
  a buy-in and a cash-out, and the cash-out is \<^verbatim>\<open>round(Buyin + Winloss, 2)\<close>, with the
  int 0 in place of a win/loss that was never set.
\<close>

theorem cashout_invariant:
  assumes "fst (convert_pokercraft_to_bink html_file output_csv year dflt location bankroll w)
             = Inr sessions"
    and "s \<in> set sessions"
  shows "\<exists>b c. Buyin s = Some b \<and> Cashout s = Some c
           \<and> bind (py_add b (winloss_or_0 s)) py_round2 = Inr c"
proof -
  have "\<forall>s \<in> set sessions. \<exists>b c. Buyin s = Some b \<and> Cashout s = Some c
           \<and> bind (py_add b (winloss_or_0 s)) py_round2 = Inr c"
  proof (rule convert_sessions_invariant[OF assms(1)])
    fix s0 s' assume "complete_session dflt s0 = Inr s'"
    from complete_session_fields[OF this]
    show "\<exists>b c. Buyin s' = Some b \<and> Cashout s' = Some c
           \<and> bind (py_add b (winloss_or_0 s')) py_round2 = Inr c"
      by (auto simp: winloss_or_0_def)
  qed
  with assms(2) show ?thesis by blast
qed

theorem cashout_invariant_witness:
  "fst (run_on None [full_row]) = Inr [full_session] \<and> full_session \<in> set [full_session]
   \<and> (\<exists>b c. Buyin full_session = Some b \<and> Cashout full_session = Some c
         \<and> bind (py_add b (winloss_or_0 full_session)) py_round2 = Inr c)"
proof -
  have h2: "full_session \<in> set [full_session]" by simp
  show ?thesis
    using cashout_invariant[OF run_full_row[unfolded run_on_def] h2] run_full_row h2 by simp
qed

lemma complete_session_buyin:
  assumes "complete_session dflt s = Inr s'"
  shows "(default_applies dflt \<longrightarrow> Buyin s' = dflt)
       \<and> (\<not> default_applies dflt \<longrightarrow>
            (\<exists>x. estimate_buyin_from_stakes (get_str (Stakes s') []) = Inr x
                 \<and> Buyin s' = Some (PyFloat x)))"
proof -
  from complete_session_fields[OF assms] obtain b c
    where b: "choose_buyin dflt s = Inr b" and s': "s' = s\<lparr>Buyin := Some b, Cashout := Some c\<rparr>"
    by blast
  show ?thesis
  proof (cases "default_applies dflt")
    case True
    then obtain d where "dflt = Some d" by (cases dflt) (simp_all add: default_applies_def)
    with True b s' show ?thesis by (simp add: choose_buyin_def)
  next
    case False
    with b obtain x where "estimate_buyin_from_stakes (get_str (Stakes s) []) = Inr x" "b = PyFloat x"
      by (cases "estimate_buyin_from_stakes (get_str (Stakes s) [])") (auto simp: choose_buyin_def)
    with False s' show ?thesis by simp
  qed
qed

lemma convert_buyin:
  assumes "fst (convert_pokercraft_to_bink html_file output_csv year dflt location bankroll w)
             = Inr sessions"
    and "s \<in> set sessions"
  shows "(default_applies dflt \<longrightarrow> Buyin s = dflt)
       \<and> (\<not> default_applies dflt \<longrightarrow>
            (\<exists>x. estimate_buyin_from_stakes (get_str (Stakes s) []) = Inr x
                 \<and> Buyin s = Some (PyFloat x)))"
  using convert_sessions_invariant[OF assms(1), where P = "\<lambda>s.
          (default_applies dflt \<longrightarrow> Buyin s = dflt)
        \<and> (\<not> default_applies dflt \<longrightarrow>
            (\<exists>x. estimate_buyin_from_stakes (get_str (Stakes s) []) = Inr x
                 \<and> Buyin s = Some (PyFloat x)))"]
    complete_session_buyin assms(2)
  by blast

lemma estimate_example: "estimate_buyin_from_stakes ''0.05/0.1'' = Inr (Finite 10)"
  by code_simp

text \<open>
  Claim C2, as stated: whenever \<^verbatim>\<open>default_buy_in\<close> is provided, the buy-in of a session
  is \<^verbatim>\<open>default_buy_in\<close>. It fails for the provided value 0: the session of the row with
  stakes 0.05/0.1 gets the estimate 10.0.
\<close>

theorem provided_default_counterexample:
  "fst (run_on (Some (PyInt 0)) [stakes_row]) = Inr [stakes_session]
   \<and> Buyin stakes_session \<noteq> Some (PyInt 0)"
  using run_stakes_row_zero by (simp add: stakes_session_def)

text \<open>
  Claim C2, amended: for every session of a run, the buy-in is \<^verbatim>\<open>default_buy_in\<close>
  whenever \<^verbatim>\<open>default_buy_in\<close> is provided and true (not zero, not empty), and otherwise it
  is \<open>estimate_buyin_from_stakes\<close> applied to the session's stakes (the empty string when
  the session has none), which did not raise.
\<close>

theorem buyin_choice:
  assumes "fst (convert_pokercraft_to_bink html_file output_csv year dflt location bankroll w)
             = Inr sessions"
    and "s \<in> set sessions"
  shows "(default_applies dflt \<longrightarrow> Buyin s = dflt)
       \<and> (\<not> default_applies dflt \<longrightarrow>
            (\<exists>x. estimate_buyin_from_stakes (get_str (Stakes s) []) = Inr x
                 \<and> Buyin s = Some (PyFloat x)))"
  using convert_buyin[OF assms] .

theorem buyin_choice_witness:
  "(fst (run_on (Some (PyFloat (Finite 50))) [table_row]) = Inr [table_session]
    \<and> table_session \<in> set [table_session]
    \<and> default_applies (Some (PyFloat (Finite 50)))
    \<and> Buyin table_session = Some (PyFloat (Finite 50)))
   \<and> (fst (run_on None [stakes_row]) = Inr [stakes_session]
    \<and> stakes_session \<in> set [stakes_session]
    \<and> \<not> default_applies None
    \<and> estimate_buyin_from_stakes (get_str (Stakes stakes_session) []) = Inr (Finite 10)
    \<and> Buyin stakes_session = Some (PyFloat (Finite 10)))"
proof -
  have t: "table_session \<in> set [table_session]" and u: "stakes_session \<in> set [stakes_session]"
    by simp_all
  have a: "default_applies (Some (PyFloat (Finite 50)))" and b: "\<not> default_applies None"
    by (simp_all add: default_applies_def)
  have "Buyin table_session = Some (PyFloat (Finite 50))"
    using buyin_choice[OF run_table_row_default[unfolded run_on_def] t] a by simp
  moreover have "\<exists>x. estimate_buyin_from_stakes (get_str (Stakes stakes_session) []) = Inr x
                     \<and> Buyin stakes_session = Some (PyFloat x)"
    using buyin_choice[OF run_stakes_row[unfolded run_on_def] u] b by simp
  then have "estimate_buyin_from_stakes (get_str (Stakes stakes_session) []) = Inr (Finite 10)
             \<and> Buyin stakes_session = Some (PyFloat (Finite 10))"
    by (auto simp: stakes_session_def)
  ultimately show ?thesis
    using run_table_row_default run_stakes_row t u a b by simp
qed

lemma process_row_cong_default:
  assumes "\<And>s. complete_session d1 s = complete_session d2 s"
  shows "process_row year d1 idx r acc w = process_row year d2 idx r acc w"
  by (simp add: process_row_def assms split: prod.splits sum.splits)

lemma scan_rows_cong_default:
  assumes "\<And>s. complete_session d1 s = complete_session d2 s"
  shows "scan_rows year d1 idx rs acc w = scan_rows year d2 idx rs acc w"
  by (induction rs arbitrary: idx acc w)
    (simp_all add: process_row_cong_default[OF assms] split: prod.splits sum.splits)

text \<open>
  Claim C3. With \<^verbatim>\<open>default_buy_in\<close> passed as \<^verbatim>\<open>0\<close> or \<^verbatim>\<open>0.0\<close>, a run is the run with
  \<^verbatim>\<open>default_buy_in\<close> absent (same result, same files, same output), and the buy-in of every
  session is \<open>estimate_buyin_from_stakes\<close> of that session's stakes.
\<close>

theorem zero_default_buy_in_ignored:
  assumes "d = PyInt 0 \<or> d = PyFloat (Finite 0)"
  shows "convert_pokercraft_to_bink html_file output_csv year (Some d) location bankroll w
           = convert_pokercraft_to_bink html_file output_csv year None location bankroll w
       \<and> (\<forall>sessions s.
            fst (convert_pokercraft_to_bink html_file output_csv year (Some d) location bankroll w)
              = Inr sessions \<longrightarrow> s \<in> set sessions \<longrightarrow>
            (\<exists>x. estimate_buyin_from_stakes (get_str (Stakes s) []) = Inr x
                 \<and> Buyin s = Some (PyFloat x)))"
proof -
  have n: "\<not> default_applies (Some d)"
    using assms by (auto simp: default_applies_def)
  then have cs: "\<And>s. complete_session (Some d) s = complete_session None s"
    by (simp add: complete_session_def choose_buyin_def default_applies_def)
  have sr: "\<And>rows. scan_rows year (Some d) 0 rows [] w = scan_rows year None 0 rows [] w"
    by (rule scan_rows_cong_default[OF cs])
  have "convert_pokercraft_to_bink html_file output_csv year (Some d) location bankroll w
           = convert_pokercraft_to_bink html_file output_csv year None location bankroll w"
    by (simp add: convert_pokercraft_to_bink_def sr cong: sum.case_cong if_cong)
  moreover have "\<forall>sessions s.
            fst (convert_pokercraft_to_bink html_file output_csv year (Some d) location bankroll w)
              = Inr sessions \<longrightarrow> s \<in> set sessions \<longrightarrow>
            (\<exists>x. estimate_buyin_from_stakes (get_str (Stakes s) []) = Inr x
                 \<and> Buyin s = Some (PyFloat x))"
    using convert_buyin n by blast
  ultimately show ?thesis by blast
qed

theorem zero_default_buy_in_ignored_witness:
  "(PyInt 0 = PyInt 0 \<or> PyInt 0 = PyFloat (Finite 0))
   \<and> run_on (Some (PyInt 0)) [stakes_row] = run_on None [stakes_row]
   \<and> fst (run_on (Some (PyInt 0)) [stakes_row]) = Inr [stakes_session]
   \<and> stakes_session \<in> set [stakes_session]
   \<and> estimate_buyin_from_stakes (get_str (Stakes stakes_session) []) = Inr (Finite 10)
   \<and> Buyin stakes_session = Some (PyFloat (Finite 10))"
proof -
  have h: "PyInt 0 = PyInt 0 \<or> PyInt 0 = PyFloat (Finite 0)" by simp
  have u: "stakes_session \<in> set [stakes_session]" by simp
  note z = zero_default_buy_in_ignored[OF h, of "''pokercraft_sessions.html''"
      "''bink_import.csv''" "Some 2024" "''Natural8''" "''Natural8''" "world_of [stakes_row]",
      folded run_on_def]
  from z have "run_on (Some (PyInt 0)) [stakes_row] = run_on None [stakes_row]" by blast
  moreover from z run_stakes_row_zero u
  have "\<exists>x. estimate_buyin_from_stakes (get_str (Stakes stakes_session) []) = Inr x
             \<and> Buyin stakes_session = Some (PyFloat x)"
    by blast
  then have "estimate_buyin_from_stakes (get_str (Stakes stakes_session) []) = Inr (Finite 10)
             \<and> Buyin stakes_session = Some (PyFloat (Finite 10))"
    by (auto simp: stakes_session_def)
  ultimately show ?thesis using run_stakes_row_zero by simp
qed


section \<open>Splitting and stripping\<close>

lemma py_split_not_Nil [simp]: "py_split sep s \<noteq> []"
  by (induction s) (auto split: list.splits)

lemma py_split_no_sep: "sep \<notin> set a \<Longrightarrow> py_split sep a = [a]"
  by (induction a) auto

lemma py_split_append: "sep \<notin> set a \<Longrightarrow> py_split sep (a @ sep # rest) = a # py_split sep rest"
  by (induction a) auto

lemma lstrip_with_append: "\<not> p x \<Longrightarrow> lstrip_with p (a @ x # m) = lstrip_with p a @ x # m"
  by (simp add: lstrip_with_def dropWhile_append3)

lemma rstrip_with_append: "\<not> p x \<Longrightarrow> rstrip_with p (m @ x # c) = m @ x # rstrip_with p c"
  by (simp add: rstrip_with_def dropWhile_append3)

lemma strip_with_around:
  "\<not> p x \<Longrightarrow> strip_with p (a @ x # c) = lstrip_with p a @ x # rstrip_with p c"
  by (simp add: strip_with_def lstrip_with_append rstrip_with_append)

lemma in_lstrip_withD: "x \<in> set (lstrip_with p s) \<Longrightarrow> x \<in> set s"
  by (auto simp: lstrip_with_def dest: set_dropWhileD)

lemma in_rstrip_withD: "x \<in> set (rstrip_with p s) \<Longrightarrow> x \<in> set s"
  by (auto simp: rstrip_with_def dest: set_dropWhileD)

lemma colon_not_space: "\<not> is_space (CHR '':'')"
  by (simp add: is_space_def)

lemma py_remove_append: "py_remove c (a @ b) = py_remove c a @ py_remove c b"
  by (simp add: py_remove_def)

lemma in_py_removeD: "x \<in> set (py_remove c s) \<Longrightarrow> x \<in> set s"
  by (auto simp: py_remove_def)


section \<open>Durations\<close>

lemma parse_duration_three:
  assumes "CHR '':'' \<notin> set a" "CHR '':'' \<notin> set b" "CHR '':'' \<notin> set c"
  shows "parse_duration (a @ '':'' @ b @ '':'' @ c) =
           bind (py_int (py_lstrip a)) (\<lambda>hours.
           bind (py_int b) (\<lambda>minutes.
           bind (py_int (py_rstrip c)) (\<lambda>seconds.
           decimal_hours hours minutes seconds)))"
proof -
  have "py_strip (a @ '':'' @ b @ '':'' @ c) = py_lstrip a @ CHR '':'' # b @ CHR '':'' # py_rstrip c"
    using strip_with_around[of is_space "CHR '':''" a "b @ CHR '':'' # c"]
      rstrip_with_append[of is_space "CHR '':''" b c] colon_not_space
    by (simp add: py_strip_def py_lstrip_def py_rstrip_def)
  moreover have "CHR '':'' \<notin> set (py_lstrip a)" "CHR '':'' \<notin> set (py_rstrip c)"
    using assms by (auto simp: py_lstrip_def py_rstrip_def dest: in_lstrip_withD in_rstrip_withD)
  ultimately have "py_split (CHR '':'') (py_strip (a @ '':'' @ b @ '':'' @ c))
                     = [py_lstrip a, b, py_rstrip c]"
    using assms(2) by (simp add: py_split_append py_split_no_sep)
  then show ?thesis
    by (simp add: parse_duration_def decimal_hours_def py_index_def)
qed

lemma parse_duration_two:
  assumes "CHR '':'' \<notin> set a" "CHR '':'' \<notin> set b"
  shows "parse_duration (a @ '':'' @ b) =
           bind (py_int (py_lstrip a)) (\<lambda>hours.
           bind (py_int (py_rstrip b)) (\<lambda>minutes.
           decimal_hours hours minutes 0))"
proof -
  have "py_strip (a @ '':'' @ b) = py_lstrip a @ CHR '':'' # py_rstrip b"
    using strip_with_around[of is_space "CHR '':''" a b] colon_not_space
    by (simp add: py_strip_def py_lstrip_def py_rstrip_def)
  moreover have "CHR '':'' \<notin> set (py_lstrip a)" "CHR '':'' \<notin> set (py_rstrip b)"
    using assms by (auto simp: py_lstrip_def py_rstrip_def dest: in_lstrip_withD in_rstrip_withD)
  ultimately have "py_split (CHR '':'') (py_strip (a @ '':'' @ b)) = [py_lstrip a, py_rstrip b]"
    by (simp add: py_split_append py_split_no_sep)
  then show ?thesis
    by (simp add: parse_duration_def decimal_hours_def py_index_def)
qed

lemma parse_duration_examples:
  "parse_duration ''01:30:00'' = Inr (Finite (3 / 2))"
  "parse_duration ''00:45'' = Inr (Finite (3 / 4))"
  by code_simp+

text \<open>
  Claim C4. \<open>parse_duration\<close> splits its (stripped) input on the colon. Of three parts
  it makes \<^verbatim>\<open>round(hours + minutes/60 + seconds/3600, 2)\<close>; of two parts it makes the
  same with the parts as hours and minutes and with seconds 0. \<^verbatim>\<open>"01:30:00"\<close> gives 1.5,
  \<^verbatim>\<open>"00:45"\<close> gives 0.75.
\<close>

theorem parse_duration_spec:
  "(\<forall>a b c. CHR '':'' \<notin> set a \<and> CHR '':'' \<notin> set b \<and> CHR '':'' \<notin> set c \<longrightarrow>
      parse_duration (a @ '':'' @ b @ '':'' @ c) =
        bind (py_int (py_lstrip a)) (\<lambda>hours.
        bind (py_int b) (\<lambda>minutes.
        bind (py_int (py_rstrip c)) (\<lambda>seconds.
        decimal_hours hours minutes seconds))))
   \<and> (\<forall>a b. CHR '':'' \<notin> set a \<and> CHR '':'' \<notin> set b \<longrightarrow>
      parse_duration (a @ '':'' @ b) =
        bind (py_int (py_lstrip a)) (\<lambda>hours.
        bind (py_int (py_rstrip b)) (\<lambda>minutes.
        decimal_hours hours minutes 0)))
   \<and> parse_duration ''01:30:00'' = Inr (Finite (3 / 2))
   \<and> parse_duration ''00:45'' = Inr (Finite (3 / 4))"
  using parse_duration_three parse_duration_two parse_duration_examples by blast

lemma decimal_hours_examples:
  "decimal_hours 2 15 0 = Inr (Finite (9 / 4))"
  "decimal_hours 0 45 0 = Inr (Finite (3 / 4))"
  by code_simp+

lemma py_int_examples:
  "py_int (py_lstrip '' 2'') = Inr 2" "py_int ''15'' = Inr 15" "py_int (py_rstrip ''00 '') = Inr 0"
  "py_int (py_lstrip ''00'') = Inr 0" "py_int (py_rstrip ''45'') = Inr 45"
  by code_simp+

theorem parse_duration_spec_witness:
  "(CHR '':'' \<notin> set '' 2'' \<and> CHR '':'' \<notin> set ''15'' \<and> CHR '':'' \<notin> set ''00 '')
   \<and> parse_duration ('' 2'' @ '':'' @ ''15'' @ '':'' @ ''00 '') = Inr (Finite (9 / 4))
   \<and> (CHR '':'' \<notin> set ''00'' \<and> CHR '':'' \<notin> set ''45'')
   \<and> parse_duration (''00'' @ '':'' @ ''45'') = Inr (Finite (3 / 4))"
proof -
  have h3: "CHR '':'' \<notin> set '' 2'' \<and> CHR '':'' \<notin> set ''15'' \<and> CHR '':'' \<notin> set ''00 ''"
    and h2: "CHR '':'' \<notin> set ''00'' \<and> CHR '':'' \<notin> set ''45''"
    by simp_all
  from parse_duration_spec
  have three: "\<forall>a b c. CHR '':'' \<notin> set a \<and> CHR '':'' \<notin> set b \<and> CHR '':'' \<notin> set c \<longrightarrow>
      parse_duration (a @ '':'' @ b @ '':'' @ c) =
        bind (py_int (py_lstrip a)) (\<lambda>hours.
        bind (py_int b) (\<lambda>minutes.
        bind (py_int (py_rstrip c)) (\<lambda>seconds.
        decimal_hours hours minutes seconds)))"
    and two: "\<forall>a b. CHR '':'' \<notin> set a \<and> CHR '':'' \<notin> set b \<longrightarrow>
      parse_duration (a @ '':'' @ b) =
        bind (py_int (py_lstrip a)) (\<lambda>hours.
        bind (py_int (py_rstrip b)) (\<lambda>minutes.
        decimal_hours hours minutes 0))"
    by blast+
  have "parse_duration ('' 2'' @ '':'' @ ''15'' @ '':'' @ ''00 '') = Inr (Finite (9 / 4))"
    using three[rule_format, OF h3] by (simp only: py_int_examples bind_Inr decimal_hours_examples)
  moreover have "parse_duration (''00'' @ '':'' @ ''45'') = Inr (Finite (3 / 4))"
    using two[rule_format, OF h2] by (simp only: py_int_examples bind_Inr decimal_hours_examples)
  ultimately show ?thesis using h2 h3 by blast
qed


section \<open>The buy-in estimate\<close>

lemma estimate_second_part:
  assumes "py_split (CHR ''/'') (py_remove (CHR ''$'') s) = x # y # zs"
  shows "estimate_buyin_from_stakes s =
           bind (py_float y) (\<lambda>big_blind. Inr (float_round2 (fmul big_blind (Finite 100))))"
  using assms by (simp add: estimate_buyin_from_stakes_def py_index_def)

lemma estimate_no_slash:
  assumes "CHR ''/'' \<notin> set s"
  shows "estimate_buyin_from_stakes s = Inl IndexError"
proof -
  have "CHR ''/'' \<notin> set (py_remove (CHR ''$'') s)"
    using assms by (auto dest: in_py_removeD)
  then show ?thesis
    by (simp add: estimate_buyin_from_stakes_def py_split_no_sep py_index_def)
qed

lemma py_remove_slash: "py_remove (CHR ''$'') (a @ CHR ''/'' # b)
                          = py_remove (CHR ''$'') a @ CHR ''/'' # py_remove (CHR ''$'') b"
  by (simp add: py_remove_def)

lemma estimate_two_parts:
  assumes "CHR ''/'' \<notin> set a" "CHR ''/'' \<notin> set b"
  shows "estimate_buyin_from_stakes (a @ ''/'' @ b) =
           bind (py_float (py_remove (CHR ''$'') b))
             (\<lambda>big_blind. Inr (float_round2 (fmul big_blind (Finite 100))))"
proof -
  have "CHR ''/'' \<notin> set (py_remove (CHR ''$'') a)" "CHR ''/'' \<notin> set (py_remove (CHR ''$'') b)"
    using assms by (auto dest: in_py_removeD)
  then have "py_split (CHR ''/'') (py_remove (CHR ''$'') (a @ ''/'' @ b))
               = [py_remove (CHR ''$'') a, py_remove (CHR ''$'') b]"
    by (simp add: py_remove_slash py_split_append py_split_no_sep)
  then show ?thesis by (simp add: estimate_second_part)
qed

lemma estimate_more_parts:
  assumes "CHR ''/'' \<notin> set a" "CHR ''/'' \<notin> set b"
  shows "estimate_buyin_from_stakes (a @ ''/'' @ b @ ''/'' @ rest) =
           bind (py_float (py_remove (CHR ''$'') b))
             (\<lambda>big_blind. Inr (float_round2 (fmul big_blind (Finite 100))))"
proof -
  have "CHR ''/'' \<notin> set (py_remove (CHR ''$'') a)" "CHR ''/'' \<notin> set (py_remove (CHR ''$'') b)"
    using assms by (auto dest: in_py_removeD)
  then have "py_split (CHR ''/'') (py_remove (CHR ''$'') (a @ ''/'' @ b @ ''/'' @ rest))
               = py_remove (CHR ''$'') a # py_remove (CHR ''$'') b
                   # py_split (CHR ''/'') (py_remove (CHR ''$'') rest)"
    using py_remove_slash[of a "b @ CHR ''/'' # rest"] py_remove_slash[of b rest]
    by (simp add: py_split_append)
  then show ?thesis by (rule estimate_second_part)
qed

text \<open>
  Claim C9. \<open>estimate_buyin_from_stakes\<close> removes every \<^verbatim>\<open>$\<close>, splits on \<^verbatim>\<open>/\<close>, reads the
  second part as a float, multiplies it by 100 and rounds to two decimals, whether or not
  more parts follow; the stakes \<^verbatim>\<open>0.05/0.1\<close> give 10.0.
\<close>

theorem estimate_buyin_spec:
  "(\<forall>a b. CHR ''/'' \<notin> set a \<and> CHR ''/'' \<notin> set b \<longrightarrow>
      estimate_buyin_from_stakes (a @ ''/'' @ b) =
        bind (py_float (py_remove (CHR ''$'') b))
          (\<lambda>big_blind. Inr (float_round2 (fmul big_blind (Finite 100)))))
   \<and> (\<forall>a b rest. CHR ''/'' \<notin> set a \<and> CHR ''/'' \<notin> set b \<longrightarrow>
      estimate_buyin_from_stakes (a @ ''/'' @ b @ ''/'' @ rest) =
        bind (py_float (py_remove (CHR ''$'') b))
          (\<lambda>big_blind. Inr (float_round2 (fmul big_blind (Finite 100)))))
   \<and> estimate_buyin_from_stakes ''0.05/0.1'' = Inr (Finite 10)"
  using estimate_two_parts estimate_more_parts estimate_example by blast

lemma big_blind_example:
  "py_float (py_remove (CHR ''$'') ''$0.1'') = Inr (Finite (3602879701896397 / 36028797018963968))"
  "float_round2 (fmul (Finite (3602879701896397 / 36028797018963968)) (Finite 100)) = Finite 10"
  by code_simp+

theorem estimate_buyin_spec_witness:
  "(CHR ''/'' \<notin> set ''$0.05'' \<and> CHR ''/'' \<notin> set ''$0.1'')
   \<and> estimate_buyin_from_stakes (''$0.05'' @ ''/'' @ ''$0.1'') = Inr (Finite 10)
   \<and> estimate_buyin_from_stakes (''$0.05'' @ ''/'' @ ''$0.1'' @ ''/'' @ ''ante'') = Inr (Finite 10)"
proof -
  have h: "CHR ''/'' \<notin> set ''$0.05'' \<and> CHR ''/'' \<notin> set ''$0.1''"
    by simp
  from estimate_buyin_spec
  have two: "\<forall>a b. CHR ''/'' \<notin> set a \<and> CHR ''/'' \<notin> set b \<longrightarrow>
      estimate_buyin_from_stakes (a @ ''/'' @ b) =
        bind (py_float (py_remove (CHR ''$'') b))
          (\<lambda>big_blind. Inr (float_round2 (fmul big_blind (Finite 100))))"
    and more: "\<forall>a b rest. CHR ''/'' \<notin> set a \<and> CHR ''/'' \<notin> set b \<longrightarrow>
      estimate_buyin_from_stakes (a @ ''/'' @ b @ ''/'' @ rest) =
        bind (py_float (py_remove (CHR ''$'') b))
          (\<lambda>big_blind. Inr (float_round2 (fmul big_blind (Finite 100))))"
    by blast+
  have "estimate_buyin_from_stakes (''$0.05'' @ ''/'' @ ''$0.1'') = Inr (Finite 10)"
    using two[rule_format, OF h] by (simp only: big_blind_example bind_Inr)
  moreover
  have "estimate_buyin_from_stakes (''$0.05'' @ ''/'' @ ''$0.1'' @ ''/'' @ ''ante'') = Inr (Finite 10)"
    using more[rule_format, OF h] by (simp only: big_blind_example bind_Inr)
  ultimately show ?thesis using h by blast
qed


section \<open>Game types\<close>

lemma py_in_upper_occurs_ci_prefix:
  assumes "\<forall>k \<in> set kw. \<not> is_lower k"
  shows "prefix kw (map upper_char s)
           \<longleftrightarrow> length kw \<le> length s \<and> list_all2 same_letter kw (take (length kw) s)"
  using assms
proof (induction kw arbitrary: s)
  case Nil
  then show ?case by simp
next
  case (Cons k ks)
  show ?case
  proof (cases s)
    case Nil
    then show ?thesis by simp
  next
    case (Cons x xs)
    have "k = upper_char x \<longleftrightarrow> same_letter k x"
      using Cons.prems by (auto simp: same_letter_def upper_char_def is_lower_def)
    with Cons.IH[of xs] Cons.prems Cons show ?thesis by auto
  qed
qed

lemma py_in_upper_occurs_ci:
  assumes "\<forall>k \<in> set kw. \<not> is_lower k"
  shows "py_in kw (py_upper t) \<longleftrightarrow> occurs_ci kw t"
proof (induction t)
  case Nil
  then show ?case by (simp add: py_upper_def)
next
  case (Cons c cs)
  have "prefix kw (map upper_char (c # cs))
          \<longleftrightarrow> length kw \<le> length (c # cs) \<and> list_all2 same_letter kw (take (length kw) (c # cs))"
    by (rule py_in_upper_occurs_ci_prefix[OF assms])
  with Cons show ?case by (simp add: py_upper_def)
qed

lemma keywords_upper:
  "\<forall>k \<in> set ''NLH''. \<not> is_lower k" "\<forall>k \<in> set ''HOLDEM''. \<not> is_lower k"
  "\<forall>k \<in> set ''HOLD'EM''. \<not> is_lower k" "\<forall>k \<in> set ''PLO''. \<not> is_lower k"
  "\<forall>k \<in> set ''OMAHA''. \<not> is_lower k"
  by (simp_all add: is_lower_def)

text \<open>
  Claim C8. \<open>parse_game_type\<close> looks for its keywords in the table name without regard
  to case: with \<^verbatim>\<open>NLH\<close>, \<^verbatim>\<open>HOLDEM\<close> or \<^verbatim>\<open>HOLD'EM\<close> in it the result is Texas Hold'em;
  otherwise with \<^verbatim>\<open>PLO\<close> or \<^verbatim>\<open>OMAHA\<close> in it the result is Omaha; otherwise it is Texas
  Hold'em.
\<close>

theorem parse_game_type_spec:
  "parse_game_type table_name =
     (if occurs_ci ''NLH'' table_name \<or> occurs_ci ''HOLDEM'' table_name
         \<or> occurs_ci ''HOLD'EM'' table_name
      then ''Texas Hold'em''
      else if occurs_ci ''PLO'' table_name \<or> occurs_ci ''OMAHA'' table_name
      then ''Omaha''
      else ''Texas Hold'em'')"
  by (simp add: parse_game_type_def Let_def py_in_upper_occurs_ci[OF keywords_upper(1)]
      py_in_upper_occurs_ci[OF keywords_upper(2)] py_in_upper_occurs_ci[OF keywords_upper(3)]
      py_in_upper_occurs_ci[OF keywords_upper(4)] py_in_upper_occurs_ci[OF keywords_upper(5)])

lemma occurs_ci_examples:
  "occurs_ci ''NLH'' ''nlh 6-Max''"
  "\<not> occurs_ci ''NLH'' ''Plo Omaha Hi''" "\<not> occurs_ci ''HOLDEM'' ''Plo Omaha Hi''"
  "\<not> occurs_ci ''HOLD'EM'' ''Plo Omaha Hi''" "occurs_ci ''PLO'' ''Plo Omaha Hi''"
  "\<not> occurs_ci ''NLH'' ''Stud 8''" "\<not> occurs_ci ''HOLDEM'' ''Stud 8''"
  "\<not> occurs_ci ''HOLD'EM'' ''Stud 8''" "\<not> occurs_ci ''PLO'' ''Stud 8''"
  "\<not> occurs_ci ''OMAHA'' ''Stud 8''"
  by code_simp+

theorem parse_game_type_spec_witness:
  "parse_game_type ''nlh 6-Max'' = ''Texas Hold'em''
   \<and> parse_game_type ''Plo Omaha Hi'' = ''Omaha''
   \<and> parse_game_type ''Stud 8'' = ''Texas Hold'em''"
  using parse_game_type_spec[of "''nlh 6-Max''"] parse_game_type_spec[of "''Plo Omaha Hi''"]
    parse_game_type_spec[of "''Stud 8''"]
  by (simp only: occurs_ci_examples simp_thms if_True if_False)


section \<open>Cells and rows\<close>




lemma parse_date_failure:
  assumes "parse_date date_str year w = (Inl e, w')"
  shows "\<exists>t e0. print_error w (DateError t e0) = Some e"
  using assms
  by (auto simp: parse_date_def print_def and_return_def split: sum.splits option.splits)


lemma parse_date_frame: "parse_date date_str year w = (r, w') \<Longrightarrow> frame w w'"
  by (auto simp: parse_date_def dest: and_return_print_frame split: sum.splits)

lemma route_cell_alt:
  "route_cell year c s w =
     (case cell_column c of
        None \<Rightarrow> (Inr s, w)
      | Some ColSessionStart \<Rightarrow>
          (case cell_tooltip c of
             None \<Rightarrow> (Inr s, w)
           | Some t \<Rightarrow>
               (case parse_date (py_join '' '' (split_ws [] t)) year w of
                  (Inl e, w') \<Rightarrow> (Inl e, w')
                | (Inr d, w') \<Rightarrow> (Inr (s\<lparr>Date := Some d\<rparr>), w')))
      | Some ColStakes \<Rightarrow> (Inr (s\<lparr>Stakes := Some (parse_stakes (cell_text c))\<rparr>), w)
      | Some ColTable \<Rightarrow>
          (Inr (s\<lparr>Table := Some (cell_text c),
                   Game_Type := Some (parse_game_type (cell_text c))\<rparr>), w)
      | Some ColHands \<Rightarrow> (Inr (s\<lparr>Hands := Some (cell_text c)\<rparr>), w)
      | Some ColDuration \<Rightarrow>
          (case parse_duration (cell_text c) of
             Inl e \<Rightarrow> (Inl e, w)
           | Inr d \<Rightarrow> (Inr (s\<lparr>Duration := Some d\<rparr>), w))
      | Some ColWinloss \<Rightarrow>
          (case parse_winloss (cell_text c) of
             Inl e \<Rightarrow> (Inl e, w)
           | Inr x \<Rightarrow> (Inr (s\<lparr>Winloss := Some x\<rparr>), w)))"
  by (simp add: route_cell_def cell_column_def)

lemma route_cell_failure:
  assumes "route_cell year c s w = (Inl e, w')"
  shows "(cell_column c = Some ColDuration \<and> parse_duration (cell_text c) = Inl e)
       \<or> (cell_column c = Some ColWinloss \<and> parse_winloss (cell_text c) = Inl e)
       \<or> (\<exists>t e0. print_error w (DateError t e0) = Some e)"
  using assms
  by (auto simp: route_cell_alt dest: parse_date_failure
      split: option.splits column.splits sum.splits prod.splits)

lemma route_cell_bad_duration:
  assumes "cell_column c = Some ColDuration" "parse_duration (cell_text c) = Inl e"
  shows "route_cell year c s w = (Inl e, w)"
  using assms by (simp add: route_cell_alt)

lemma route_cell_Stakes:
  assumes "route_cell year c s w = (Inr s', w')"
  shows "Stakes s' = (if cell_column c = Some ColStakes
                      then Some (parse_stakes (cell_text c)) else Stakes s)"
  using assms
  by (auto simp: route_cell_alt split: option.splits column.splits sum.splits prod.splits)

lemma route_cell_has_field_mono:
  assumes "route_cell year c s w = (Inr s', w')" "has_field k s"
  shows "has_field k s'"
  using assms
  by (cases k)
    (auto simp: route_cell_alt split: option.splits column.splits sum.splits prod.splits)

lemma route_cell_sets_field:
  assumes "route_cell year c s w = (Inr s', w')" "cell_column c = Some k"
    and "k = ColSessionStart \<longrightarrow> cell_tooltip c \<noteq> None"
  shows "has_field k s'"
  using assms
  by (cases k) (auto simp: route_cell_alt split: option.splits sum.splits prod.splits)

lemma route_cell_no_field:
  assumes "\<not> yields_field c"
  shows "route_cell year c s w = (Inr s, w)"
  using assms
  by (auto simp: route_cell_alt yields_field_def split: option.splits column.splits)

lemma route_cell_frame:
  assumes "route_cell year c s w = (res, w')"
  shows "frame w w'"
  using assms
  by (auto simp: route_cell_alt dest: parse_date_frame
      split: option.splits column.splits sum.splits prod.splits)

lemma has_field_nonempty: "has_field k s \<Longrightarrow> session_nonempty s"
  by (cases k) (auto simp: session_nonempty_def)

lemma scan_cells_frame:
  assumes "scan_cells year r s w = (res, w')"
  shows "frame w w'"
  using assms
proof (induction r arbitrary: s w)
  case Nil
  then show ?case by simp
next
  case (Cons c cs)
  obtain res1 w1 where rc: "route_cell year c s w = (res1, w1)"
    by (cases "route_cell year c s w")
  from route_cell_frame[OF rc] have f: "frame w w1" .
  show ?case
  proof (cases res1)
    case (Inl e)
    with Cons.prems rc f show ?thesis by auto
  next
    case (Inr s1)
    with Cons.prems rc have "scan_cells year cs s1 w1 = (res, w')" by simp
    from Cons.IH[OF this] f show ?thesis by (rule frame_trans[rotated])
  qed
qed

lemma scan_cells_failure:
  assumes "scan_cells year r s w = (Inl e, w')"
  shows "(\<exists>c \<in> set r.
           (cell_column c = Some ColDuration \<and> parse_duration (cell_text c) = Inl e)
         \<or> (cell_column c = Some ColWinloss \<and> parse_winloss (cell_text c) = Inl e))
       \<or> (\<exists>t e0. print_error w (DateError t e0) = Some e)"
  using assms
proof (induction r arbitrary: s w)
  case Nil
  then show ?case by simp
next
  case (Cons c cs)
  obtain res w1 where rc: "route_cell year c s w = (res, w1)"
    by (cases "route_cell year c s w")
  show ?case
  proof (cases res)
    case (Inl e')
    with Cons.prems rc have "e' = e" by simp
    with rc Inl route_cell_failure[of year c s w e w1] show ?thesis by auto
  next
    case (Inr s1)
    with Cons.prems rc have "scan_cells year cs s1 w1 = (Inl e, w')" by simp
    from Cons.IH[OF this] route_cell_frame[OF rc] show ?thesis by (auto simp: frame_def)
  qed
qed

lemma scan_cells_bad_duration:
  assumes "c \<in> set r" "cell_column c = Some ColDuration"
    and "isl (parse_duration (cell_text c))"
  shows "isl (fst (scan_cells year r s w))"
  using assms(1)
proof (induction r arbitrary: s w)
  case Nil
  then show ?case by simp
next
  case (Cons x xs)
  obtain res w1 where rc: "route_cell year x s w = (res, w1)"
    by (cases "route_cell year x s w")
  show ?case
  proof (cases res)
    case (Inl e)
    with rc show ?thesis by simp
  next
    case (Inr s1)
    have "x \<noteq> c"
    proof
      assume "x = c"
      from assms(3) obtain e where "parse_duration (cell_text c) = Inl e"
        by (cases "parse_duration (cell_text c)") auto
      from route_cell_bad_duration[OF assms(2) this, of year s w] rc Inr \<open>x = c\<close>
      show False by simp
    qed
    with Cons.prems have "c \<in> set xs" by simp
    from Cons.IH[OF this, of s1 w1] rc Inr show ?thesis by simp
  qed
qed

lemma scan_cells_Stakes:
  assumes "scan_cells year r s w = (Inr s', w')"
  shows "Stakes s' = (case row_stakes r of None \<Rightarrow> Stakes s | Some x \<Rightarrow> Some x)"
  using assms
proof (induction r arbitrary: s w)
  case Nil
  then show ?case by (simp add: row_stakes_def)
next
  case (Cons c cs)
  obtain res w1 where rc: "route_cell year c s w = (res, w1)"
    by (cases "route_cell year c s w")
  show ?case
  proof (cases res)
    case (Inl e)
    with Cons.prems rc show ?thesis by simp
  next
    case (Inr s1)
    with Cons.prems rc have run: "scan_cells year cs s1 w1 = (Inr s', w')" by simp
    have s1: "Stakes s1 = (if cell_column c = Some ColStakes
                           then Some (parse_stakes (cell_text c)) else Stakes s)"
      using route_cell_Stakes rc Inr by blast
    show ?thesis
      using Cons.IH[OF run] s1
      by (auto simp: row_stakes_def split: list.splits if_splits)
  qed
qed

lemma scan_cells_has_field:
  assumes "scan_cells year r s w = (Inr s', w')"
    and "has_field k s
         \<or> (\<exists>c \<in> set r. cell_column c = Some k
               \<and> (k = ColSessionStart \<longrightarrow> cell_tooltip c \<noteq> None))"
  shows "has_field k s'"
  using assms
proof (induction r arbitrary: s w)
  case Nil
  then show ?case by simp
next
  case (Cons c cs)
  obtain res w1 where rc: "route_cell year c s w = (res, w1)"
    by (cases "route_cell year c s w")
  show ?case
  proof (cases res)
    case (Inl e)
    with Cons.prems rc show ?thesis by simp
  next
    case (Inr s1)
    with Cons.prems rc have run: "scan_cells year cs s1 w1 = (Inr s', w')" by simp
    have "has_field k s1
          \<or> (\<exists>c \<in> set cs. cell_column c = Some k
                \<and> (k = ColSessionStart \<longrightarrow> cell_tooltip c \<noteq> None))"
      using Cons.prems(2) route_cell_has_field_mono[OF rc[unfolded Inr]]
        route_cell_sets_field[OF rc[unfolded Inr]]
      by auto
    with Cons.IH[OF run] show ?thesis by blast
  qed
qed

lemma scan_cells_no_field:
  assumes "\<forall>c \<in> set r. \<not> yields_field c"
  shows "scan_cells year r s w = (Inr s, w)"
  using assms by (induction r) (simp_all add: route_cell_no_field)

lemma scan_cells_total:
  assumes "numbers_parse r" "prints_date_errors w"
  shows "\<exists>s' w'. scan_cells year r s w = (Inr s', w')"
proof (cases "scan_cells year r s w")
  case (Pair res w')
  show ?thesis
  proof (cases res)
    case (Inl e)
    from scan_cells_failure[OF Pair[unfolded Inl]] assms show ?thesis
      by (auto simp: numbers_parse_def list_all_iff prints_date_errors_def)
  next
    case (Inr s')
    with Pair show ?thesis by simp
  qed
qed

section \<open>Runs on documents that differ in one kind of text\<close>

text \<open>
  Two runs on documents whose cells correspond under \<open>g\<close>, in worlds related by \<open>E\<close>,
  raise the same exception or return sessions related by \<open>R\<close>, when one cell does.
\<close>

lemma same_env_print: "same_env w w' \<Longrightarrow> fst (print l w') = fst (print l w)"
  by (auto simp: same_env_def print_def split: option.splits)

lemma same_env_frames: "same_env w w' \<Longrightarrow> frame w v \<Longrightarrow> frame w' v' \<Longrightarrow> same_env v v'"
  by (simp add: same_env_def frame_def)

lemma fst_and_return: "fst (and_return r v) = map_sum id (\<lambda>u. v) (fst r)"
  by (cases r; cases "fst r") auto

lemma scan_cells_related:
  assumes step: "\<And>c s t w w'. R s t \<Longrightarrow> E w w' \<Longrightarrow>
            rel_sum (=) R (fst (route_cell year c s w)) (fst (route_cell year (g c) t w'))"
    and env: "\<And>w w' v v'. E w w' \<Longrightarrow> frame w v \<Longrightarrow> frame w' v' \<Longrightarrow> E v v'"
    and "R s t" "E w w'"
  shows "rel_sum (=) R (fst (scan_cells year r s w)) (fst (scan_cells year (map g r) t w'))"
  using assms(3,4)
proof (induction r arbitrary: s t w w')
  case Nil
  then show ?case by simp
next
  case (Cons c cs)
  obtain r1 w1 where a: "route_cell year c s w = (r1, w1)"
    by (cases "route_cell year c s w")
  obtain r2 w2 where b: "route_cell year (g c) t w' = (r2, w2)"
    by (cases "route_cell year (g c) t w'")
  from step[OF Cons.prems, of c] a b have rel: "rel_sum (=) R r1 r2" by simp
  have E1: "E w1 w2"
    using env[OF Cons.prems(2) route_cell_frame[OF a] route_cell_frame[OF b]] .
  show ?case
  proof (cases r1)
    case (Inl e)
    with rel have "r2 = Inl e" by (cases r2) simp_all
    with a b Inl show ?thesis by simp
  next
    case (Inr s1)
    with rel obtain t1 where t1: "r2 = Inr t1" "R s1 t1" by (cases r2) simp_all
    from Cons.IH[OF t1(2) E1] a b Inr t1(1) show ?thesis by simp
  qed
qed

lemma process_row_frame:
  assumes "process_row year dflt idx r acc w = (res, w')"
  shows "frame w w'"
proof -
  obtain r1 w1 where sc: "scan_cells year r empty_session w = (r1, w1)"
    by (cases "scan_cells year r empty_session w")
  from scan_cells_frame[OF sc] have f: "frame w w1" .
  show ?thesis
  proof (cases r1)
    case (Inl e)
    with assms sc f show ?thesis by (auto simp: process_row_def)
  next
    case (Inr s)
    show ?thesis
    proof (cases "session_nonempty s \<and> \<not> isl (complete_session dflt s)")
      case False
      with assms sc f Inr show ?thesis
        by (auto simp: process_row_def split: sum.splits if_splits)
    next
      case True
      then obtain s' where "complete_session dflt s = Inr s'"
        by (cases "complete_session dflt s") auto
      with assms sc Inr True
      have "and_return (print (session_line idx s') w1) (acc @ [s']) = (res, w')"
        by (simp add: process_row_def)
      from and_return_print_frame[OF this] f show ?thesis by (rule frame_trans[rotated])
    qed
  qed
qed

lemma scan_rows_frame:
  assumes "scan_rows year dflt idx rs acc w = (res, w')"
  shows "frame w w'"
  using assms
proof (induction rs arbitrary: idx acc w)
  case Nil
  then show ?case by simp
next
  case (Cons r rs)
  obtain r1 w1 where pr: "process_row year dflt idx r acc w = (r1, w1)"
    by (cases "process_row year dflt idx r acc w")
  from process_row_frame[OF pr] have f: "frame w w1" .
  show ?case
  proof (cases r1)
    case (Inl e)
    with Cons.prems pr f show ?thesis by auto
  next
    case (Inr acc1)
    with Cons.prems pr have "scan_rows year dflt (idx + 1) rs acc1 w1 = (res, w')" by simp
    from Cons.IH[OF this] f show ?thesis by (rule frame_trans[rotated])
  qed
qed

lemma process_row_related:
  assumes step: "\<And>c s t w w'. R s t \<Longrightarrow> E w w' \<Longrightarrow>
            rel_sum (=) R (fst (route_cell year c s w)) (fst (route_cell year (g c) t w'))"
    and env: "\<And>w w' v v'. E w w' \<Longrightarrow> frame w v \<Longrightarrow> frame w' v' \<Longrightarrow> E v v'"
    and same: "\<And>w w'. E w w' \<Longrightarrow> same_env w w'"
    and complete: "\<And>s t. R s t \<Longrightarrow>
            rel_sum (=) R (complete_session dflt s) (complete_session dflt t)"
    and ne: "\<And>s t. R s t \<Longrightarrow> session_nonempty s = session_nonempty t"
    and line: "\<And>s t i. R s t \<Longrightarrow> session_line i s = session_line i t"
    and empty: "R empty_session empty_session"
    and "list_all2 R acc acc'" "E w w'"
  shows "rel_sum (=) (list_all2 R)
           (fst (process_row year dflt idx r acc w))
           (fst (process_row year dflt idx (map g r) acc' w'))"
proof -
  obtain r1 w1 where a: "scan_cells year r empty_session w = (r1, w1)"
    by (cases "scan_cells year r empty_session w")
  obtain r2 w2 where b: "scan_cells year (map g r) empty_session w' = (r2, w2)"
    by (cases "scan_cells year (map g r) empty_session w'")
  from scan_cells_related[where R = R and E = E and year = year and g = g and r = r
        and s = empty_session and t = empty_session and w = w and w' = w',
      OF step env empty assms(9)] a b
  have rel: "rel_sum (=) R r1 r2" by simp
  have E1: "same_env w1 w2"
    using same[OF env[OF assms(9) scan_cells_frame[OF a] scan_cells_frame[OF b]]] .
  show ?thesis
  proof (cases r1)
    case (Inl e)
    with rel have "r2 = Inl e" by (cases r2) simp_all
    with a b Inl show ?thesis by (simp add: process_row_def)
  next
    case (Inr s)
    with rel obtain t where t: "r2 = Inr t" "R s t" by (cases r2) simp_all
    note n = ne[OF t(2)]
    show ?thesis
    proof (cases "session_nonempty s")
      case False
      with a b Inr t n assms(8) show ?thesis by (simp add: process_row_def)
    next
      case True
      from complete[OF t(2)]
      show ?thesis
      proof (cases "complete_session dflt s")
        case cs: (Inl e)
        with complete[OF t(2)] have "complete_session dflt t = Inl e"
          by (cases "complete_session dflt t") simp_all
        with cs a b Inr t(1) n True show ?thesis by (simp add: process_row_def)
      next
        case cs: (Inr s')
        with complete[OF t(2)] obtain t' where t': "complete_session dflt t = Inr t'" "R s' t'"
          by (cases "complete_session dflt t") simp_all
        have p: "fst (print (session_line idx t') w2) = fst (print (session_line idx s') w1)"
          using same_env_print[OF E1] line[OF t'(2)] by simp
        have "list_all2 R (acc @ [s']) (acc' @ [t'])"
          using assms(8) t'(2) by (simp add: list_all2_appendI)
        then show ?thesis
          using cs t'(1) a b Inr t(1) n True p
          by (cases "fst (print (session_line idx s') w1)")
            (simp_all add: process_row_def fst_and_return)
      qed
    qed
  qed
qed

lemma scan_rows_related:
  assumes step: "\<And>c s t w w'. R s t \<Longrightarrow> E w w' \<Longrightarrow>
            rel_sum (=) R (fst (route_cell year c s w)) (fst (route_cell year (g c) t w'))"
    and env: "\<And>w w' v v'. E w w' \<Longrightarrow> frame w v \<Longrightarrow> frame w' v' \<Longrightarrow> E v v'"
    and same: "\<And>w w'. E w w' \<Longrightarrow> same_env w w'"
    and complete: "\<And>s t. R s t \<Longrightarrow>
            rel_sum (=) R (complete_session dflt s) (complete_session dflt t)"
    and ne: "\<And>s t. R s t \<Longrightarrow> session_nonempty s = session_nonempty t"
    and line: "\<And>s t i. R s t \<Longrightarrow> session_line i s = session_line i t"
    and empty: "R empty_session empty_session"
    and "list_all2 R acc acc'" "E w w'"
  shows "rel_sum (=) (list_all2 R)
           (fst (scan_rows year dflt idx rs acc w))
           (fst (scan_rows year dflt idx (map (map g) rs) acc' w'))"
  using assms(8,9)
proof (induction rs arbitrary: idx acc acc' w w')
  case Nil
  then show ?case by simp
next
  case (Cons r rs)
  obtain r1 w1 where a: "process_row year dflt idx r acc w = (r1, w1)"
    by (cases "process_row year dflt idx r acc w")
  obtain r2 w2 where b: "process_row year dflt idx (map g r) acc' w' = (r2, w2)"
    by (cases "process_row year dflt idx (map g r) acc' w'")
  from process_row_related[where R = R and E = E and year = year and g = g and dflt = dflt
        and idx = idx and r = r and acc = acc and acc' = acc' and w = w and w' = w',
      OF step env same complete ne line empty Cons.prems] a b
  have rel: "rel_sum (=) (list_all2 R) r1 r2" by simp
  have E1: "E w1 w2"
    using env[OF Cons.prems(2) process_row_frame[OF a] process_row_frame[OF b]] .
  show ?case
  proof (cases r1)
    case (Inl e)
    with rel have "r2 = Inl e" by (cases r2) simp_all
    with a b Inl show ?thesis by simp
  next
    case (Inr acc1)
    with rel obtain acc2 where t: "r2 = Inr acc2" "list_all2 R acc1 acc2"
      by (cases r2) simp_all
    from Cons.IH[OF t(2) E1] a b Inr t(1) show ?thesis by simp
  qed
qed

lemma write_csv_same_env: "write_csv output_csv location bankroll sessions w = (r, w') \<Longrightarrow> same_env w w'"
  by (auto simp: write_csv_def same_env_def Let_def split: option.splits prod.splits)

lemma write_csv_opens_not:
  "open_error w output_csv = Some e \<Longrightarrow>
     write_csv output_csv location bankroll sessions w = (Inl e, w)"
  by (simp add: write_csv_def)

lemma write_csv_written:
  assumes "open_error w output_csv = None" "writes_all w output_csv"
  shows "write_csv output_csv location bankroll sessions w =
           (Inr (), w\<lparr>csv_files := (csv_files w)
              (output_csv \<mapsto> map PyStr fieldnames # map (csv_row location bankroll) sessions)\<rparr>)"
  using assms by (simp add: write_csv_def writes_all_def)

lemma same_env_sym: "same_env w w' \<Longrightarrow> same_env w' w"
  by (simp add: same_env_def)

lemma same_env_trans: "same_env w w' \<Longrightarrow> same_env w' w'' \<Longrightarrow> same_env w w''"
  by (simp add: same_env_def)

lemma frame_same_env: "frame w w' \<Longrightarrow> same_env w w'"
  by (simp add: same_env_def frame_def)

lemma convert_related:
  assumes step: "\<And>c s t w w'. R s t \<Longrightarrow> E w w' \<Longrightarrow>
            rel_sum (=) R (fst (route_cell year c s w)) (fst (route_cell year (g c) t w'))"
    and env: "\<And>w w' v v'. E w w' \<Longrightarrow> frame w v \<Longrightarrow> frame w' v' \<Longrightarrow> E v v'"
    and same: "\<And>w w'. E w w' \<Longrightarrow> same_env w w'"
    and complete: "\<And>s t. R s t \<Longrightarrow>
            rel_sum (=) R (complete_session dflt s) (complete_session dflt t)"
    and ne: "\<And>s t. R s t \<Longrightarrow> session_nonempty s = session_nonempty t"
    and line: "\<And>s t i. R s t \<Longrightarrow> session_line i s = session_line i t"
    and empty: "R empty_session empty_session"
    and doc: "documents w html_file = Inr rows"
    and doc': "documents w' html_file = Inr (map (map g) rows)"
    and E: "E w w'"
    and wa: "writes_all w output_csv"
  shows "rel_sum (=) (list_all2 R)
           (fst (convert_pokercraft_to_bink html_file output_csv year dflt location bankroll w))
           (fst (convert_pokercraft_to_bink html_file output_csv year dflt location bankroll w'))"
proof (cases "rows = []")
  case True
  have "fst (print NoRowsWarning w') = fst (print NoRowsWarning w)"
    using same_env_print[OF same[OF E]] .
  with True doc doc' show ?thesis
    by (cases "fst (print NoRowsWarning w)")
      (simp_all add: convert_pokercraft_to_bink_def fst_and_return)
next
  case False
  obtain r1 w1 where a: "scan_rows year dflt 0 rows [] w = (r1, w1)"
    by (cases "scan_rows year dflt 0 rows [] w")
  obtain r2 w2 where b: "scan_rows year dflt 0 (map (map g) rows) [] w' = (r2, w2)"
    by (cases "scan_rows year dflt 0 (map (map g) rows) [] w'")
  have nil: "list_all2 R [] []" by simp
  from scan_rows_related[where R = R and E = E and year = year and g = g and dflt = dflt
        and idx = 0 and rs = rows and acc = "[]" and acc' = "[]" and w = w and w' = w',
      OF step env same complete ne line empty nil E] a b
  have rel: "rel_sum (=) (list_all2 R) r1 r2" by simp
  have e12: "same_env w1 w2"
    using same[OF env[OF E scan_rows_frame[OF a] scan_rows_frame[OF b]]] .
  have w1: "same_env w w1" using scan_rows_frame[OF a] by (rule frame_same_env)
  show ?thesis
  proof (cases r1)
    case (Inl e)
    with rel have "r2 = Inl e" by (cases r2) simp_all
    with a b Inl doc doc' False show ?thesis by (simp add: convert_pokercraft_to_bink_def)
  next
    case (Inr ss)
    with rel obtain ts where t: "r2 = Inr ts" "list_all2 R ss ts" by (cases r2) simp_all
    from t(2) have len: "length ts = length ss" and nil_iff: "ss = [] \<longleftrightarrow> ts = []"
      by (auto dest: list_all2_lengthD)
    show ?thesis
    proof (cases "ss = []")
      case True
      have "fst (print NoSessions w2) = fst (print NoSessions w1)"
        using same_env_print[OF e12] .
      with True nil_iff a b Inr t(1) doc doc' False show ?thesis
        by (cases "fst (print NoSessions w1)")
          (simp_all add: convert_pokercraft_to_bink_def fst_and_return)
    next
      case ne_ss: False
      show ?thesis
      proof (cases "open_error w1 output_csv")
        case (Some e)
        moreover from Some e12 have "open_error w2 output_csv = Some e"
          by (simp add: same_env_def)
        ultimately show ?thesis
          using ne_ss nil_iff a b Inr t(1) doc doc' False
          by (simp add: convert_pokercraft_to_bink_def write_csv_opens_not)
      next
        case None
        from wa w1 have wa1: "writes_all w1 output_csv"
          by (simp add: writes_all_def same_env_def)
        with e12 have wa2: "writes_all w2 output_csv"
          by (simp add: writes_all_def same_env_def)
        from None e12 have o2: "open_error w2 output_csv = None"
          by (simp add: same_env_def)
        obtain v1 where v1: "write_csv output_csv location bankroll ss w1 = (Inr (), v1)"
          using write_csv_written[OF None wa1] by blast
        obtain v2 where v2: "write_csv output_csv location bankroll ts w2 = (Inr (), v2)"
          using write_csv_written[OF o2 wa2] by blast
        have "same_env v1 v2"
          using write_csv_same_env[OF v1] write_csv_same_env[OF v2] e12
          by (simp add: same_env_def)
        then have "fst (print (ConversionComplete (length ss) output_csv) v2)
                 = fst (print (ConversionComplete (length ss) output_csv) v1)"
          by (rule same_env_print)
        with ne_ss nil_iff a b Inr t doc doc' False v1 v2 len show ?thesis
          by (cases "fst (print (ConversionComplete (length ss) output_csv) v1)")
            (simp_all add: convert_pokercraft_to_bink_def fst_and_return)
      qed
    qed
  qed
qed

lemma with_document_facts:
  "documents (with_document path rows w) path = Inr rows"
  "same_env w (with_document path rows w)"
  "prints_date_errors (with_document path rows w) = prints_date_errors w"
  by (simp_all add: with_document_def same_env_def prints_date_errors_def)

subsection \<open>Other date texts\<close>






subsection \<open>Other stakes texts\<close>

lemma same_but_stakes_erase: "same_but_stakes s t \<Longrightarrow> erase_stakes s = erase_stakes t"
  by (cases s, cases t) (simp add: same_but_stakes_def erase_stakes_def)

lemma list_all2_same_but_stakes_erase:
  "list_all2 same_but_stakes xs ys \<Longrightarrow> map erase_stakes xs = map erase_stakes ys"
  by (induction xs ys rule: list_all2_induct) (simp_all add: same_but_stakes_erase)

lemma same_env_parse_date:
  assumes "same_env w w'"
  shows "fst (parse_date d year w') = fst (parse_date d year w)"
proof -
  have "parse_date_try d year w' = parse_date_try d year w"
    using assms by (cases year) (simp_all add: parse_date_try_def same_env_def)
  then show ?thesis
    using same_env_print[OF assms]
    by (cases "parse_date_try d year w") (simp_all add: parse_date_def fst_and_return)
qed

lemma route_cell_restake:
  assumes "same_but_stakes s t" "same_env w w'"
  shows "rel_sum (=) same_but_stakes
           (fst (route_cell year c s w)) (fst (route_cell year (restake_cell f c) t w'))"
proof (cases "cell_column c = Some ColStakes")
  case True
  then have "restake_cell f c = c\<lparr>cell_text := f (cell_text c)\<rparr>"
    by (simp add: restake_cell_def)
  moreover have "cell_column (c\<lparr>cell_text := f (cell_text c)\<rparr>) = cell_column c"
    by (simp add: cell_column_def)
  ultimately have "cell_column (restake_cell f c) = Some ColStakes"
    using True by simp
  with True assms(1) show ?thesis
    by (simp add: route_cell_alt same_but_stakes_def)
next
  case False
  then have same: "restake_cell f c = c" by (simp add: restake_cell_def)
  show ?thesis
  proof (cases "cell_column c = Some ColSessionStart \<and> cell_tooltip c \<noteq> None")
    case True
    then obtain a where a: "cell_tooltip c = Some a" by blast
    let ?d = "py_join '' '' (split_ws [] a)"
    obtain r1 v1 where r1: "parse_date ?d year w = (r1, v1)" by (cases "parse_date ?d year w")
    obtain r2 v2 where r2: "parse_date ?d year w' = (r2, v2)" by (cases "parse_date ?d year w'")
    from same_env_parse_date[OF assms(2), of ?d year] r1 r2 have "r2 = r1" by simp
    with True a r1 r2 same assms(1) show ?thesis
      by (cases r1) (simp_all add: route_cell_alt same_but_stakes_def)
  next
    case no_date: False
    with False same assms(1) show ?thesis
      by (auto simp: route_cell_alt same_but_stakes_def
          split: option.splits column.splits sum.splits)
  qed
qed

lemma complete_session_same_but_stakes:
  assumes "default_applies dflt" "same_but_stakes s t"
  shows "rel_sum (=) same_but_stakes (complete_session dflt s) (complete_session dflt t)"
proof -
  have eq: "choose_buyin dflt s = Inr (the dflt)" "choose_buyin dflt t = Inr (the dflt)"
    "winloss_or_0 s = winloss_or_0 t"
    using assms by (simp_all add: choose_buyin_def winloss_or_0_def same_but_stakes_def)
  show ?thesis
  proof (cases "bind (py_add (the dflt) (winloss_or_0 t)) py_round2")
    case (Inl e)
    with eq show ?thesis by (simp add: complete_session_def bind_def split: sum.splits)
  next
    case (Inr c)
    with eq assms(2) show ?thesis
      by (auto simp: complete_session_def bind_def same_but_stakes_def split: sum.splits)
  qed
qed

lemma convert_restake:
  assumes "documents w html_file = Inr rows" "default_applies dflt" "writes_all w output_csv"
  shows "map_sum id (map erase_stakes)
           (fst (convert_pokercraft_to_bink html_file output_csv year dflt location bankroll
                   (with_document html_file (map (restake f) rows) w)))
       = map_sum id (map erase_stakes)
           (fst (convert_pokercraft_to_bink html_file output_csv year dflt location bankroll w))"
proof -
  let ?w' = "with_document html_file (map (restake f) rows) w"
  have rows': "map (restake f) rows = map (map (restake_cell f)) rows"
    by (simp add: restake_def[abs_def])
  have "rel_sum (=) (list_all2 same_but_stakes)
           (fst (convert_pokercraft_to_bink html_file output_csv year dflt location bankroll w))
           (fst (convert_pokercraft_to_bink html_file output_csv year dflt location bankroll ?w'))"
  proof (rule convert_related[where R = same_but_stakes and g = "restake_cell f"
        and E = same_env and rows = rows])
    show "rel_sum (=) same_but_stakes (fst (route_cell year c s w))
            (fst (route_cell year (restake_cell f c) t w'))"
      if "same_but_stakes s t" "same_env w w'" for c s t w w'
      using that by (rule route_cell_restake)
    show "same_env v v'" if "same_env w w'" "frame w v" "frame w' v'" for w w' v v'
      using that by (rule same_env_frames)
    show "same_env w w'" if "same_env w w'" for w w'
      using that .
    show "rel_sum (=) same_but_stakes (complete_session dflt s) (complete_session dflt t)"
      if "same_but_stakes s t" for s t
      using assms(2) that by (rule complete_session_same_but_stakes)
    show "session_nonempty s = session_nonempty t" if "same_but_stakes s t" for s t
      using that by (auto simp: same_but_stakes_def session_nonempty_def)
    show "session_line i s = session_line i t" if "same_but_stakes s t" for s t i
      using that by (simp add: same_but_stakes_def session_line_def winloss_or_0_def)
    show "same_but_stakes empty_session empty_session"
      by (simp add: same_but_stakes_def)
    show "documents w html_file = Inr rows" by (rule assms(1))
    show "documents ?w' html_file = Inr (map (map (restake_cell f)) rows)"
      by (simp add: with_document_facts rows')
    show "same_env w ?w'" by (simp add: with_document_facts)
    show "writes_all w output_csv" by (rule assms(3))
  qed
  then show ?thesis
    by (cases "fst (convert_pokercraft_to_bink html_file output_csv year dflt location bankroll w)";
        cases "fst (convert_pokercraft_to_bink html_file output_csv year dflt location bankroll ?w')")
      (simp_all add: list_all2_same_but_stakes_erase)
qed

section \<open>Dates and the run\<close>






section \<open>Runs that write no file, runs that write one row\<close>

lemma empty_session_empty [simp]: "\<not> session_nonempty empty_session"
  by (simp add: session_nonempty_def empty_session_def)

lemma process_row_no_field:
  assumes "\<forall>c \<in> set r. \<not> yields_field c"
  shows "process_row year dflt idx r acc w = (Inr acc, w)"
  by (simp add: process_row_def scan_cells_no_field[OF assms])

lemma scan_rows_no_field:
  assumes "\<forall>r \<in> set rs. \<forall>c \<in> set r. \<not> yields_field c"
  shows "scan_rows year dflt idx rs acc w = (Inr acc, w)"
  using assms by (induction rs arbitrary: idx) (simp_all add: process_row_no_field)

text \<open>The message of a run without sessions: the warning when the document has no marked
  rows, the other one when the scan leaves the accumulator empty.\<close>

lemma convert_empty_result:
  assumes "documents w html_file = Inr rows"
    and "rows = [] \<or> fst (scan_rows year dflt 0 rows [] w) = Inr []"
  shows "csv_files (snd (convert_pokercraft_to_bink html_file output_csv year dflt location
                           bankroll w)) = csv_files w"
    and "print_error w (if rows = [] then NoRowsWarning else NoSessions) = None \<Longrightarrow>
         fst (convert_pokercraft_to_bink html_file output_csv year dflt location bankroll w)
           = Inr []"
    and "print_error w (if rows = [] then NoRowsWarning else NoSessions) = Some e \<Longrightarrow>
         fst (convert_pokercraft_to_bink html_file output_csv year dflt location bankroll w)
           = Inl e"
proof -
  let ?run = "convert_pokercraft_to_bink html_file output_csv year dflt location bankroll w"
  have "csv_files (snd ?run) = csv_files w
      \<and> (print_error w (if rows = [] then NoRowsWarning else NoSessions) = None \<longrightarrow>
           fst ?run = Inr [])
      \<and> (print_error w (if rows = [] then NoRowsWarning else NoSessions) = Some e \<longrightarrow>
           fst ?run = Inl e)"
  proof (cases "rows = []")
    case True
    with assms(1) have run: "?run = and_return (print NoRowsWarning w) []"
      by (simp add: convert_pokercraft_to_bink_def)
    show ?thesis
      unfolding run using True
      by (auto simp: print_def frame_def split: option.splits)
  next
    case False
    obtain res w1 where sr: "scan_rows year dflt 0 rows [] w = (res, w1)"
      by (cases "scan_rows year dflt 0 rows [] w")
    with assms(2) False have res: "res = Inr []" by simp
    from scan_rows_frame[OF sr] have fr: "csv_files w1 = csv_files w"
      "print_error w1 = print_error w"
      by (simp_all add: frame_def)
    from assms(1) False sr res have run: "?run = and_return (print NoSessions w1) []"
      by (simp add: convert_pokercraft_to_bink_def)
    show ?thesis
      unfolding run using False fr
      by (auto simp: print_def split: option.splits)
  qed
  then show "csv_files (snd ?run) = csv_files w"
    and "print_error w (if rows = [] then NoRowsWarning else NoSessions) = None \<Longrightarrow>
         fst ?run = Inr []"
    and "print_error w (if rows = [] then NoRowsWarning else NoSessions) = Some e \<Longrightarrow>
         fst ?run = Inl e"
    by blast+
qed

lemma numeric_default_add:
  assumes "numeric_default dflt"
  shows "\<exists>y. py_add (the dflt) (PyFloat x) = Inr (PyFloat y)"
proof (cases dflt)
  case None
  with assms show ?thesis by (simp add: numeric_default_def)
next
  case (Some d)
  show ?thesis
  proof (cases d)
    case (PyStr s)
    with Some assms show ?thesis by (simp add: numeric_default_def)
  next
    case (PyInt i)
    with Some assms obtain y where "float_of_int i = Inr y"
      by (cases "float_of_int i") (auto simp: numeric_default_def)
    with Some PyInt show ?thesis by simp
  next
    case (PyFloat a)
    with Some show ?thesis by simp
  qed
qed

lemma full_row_session:
  assumes "fully_populated r" "numbers_parse r"
    and "default_applies dflt \<longrightarrow> numeric_default dflt"
    and "\<not> default_applies dflt \<longrightarrow> \<not> isl (estimate_buyin_from_stakes (get_str (row_stakes r) []))"
    and "prints_all w"
  shows "\<exists>s' w'. process_row year dflt idx r acc w = (Inr (acc @ [s']), w')
           \<and> Date s' \<noteq> None \<and> Stakes s' \<noteq> None \<and> Table s' \<noteq> None \<and> Game_Type s' \<noteq> None
           \<and> Hands s' \<noteq> None \<and> Duration s' \<noteq> None \<and> Winloss s' \<noteq> None
           \<and> Buyin s' \<noteq> None \<and> Cashout s' \<noteq> None"
proof -
  from assms(5) have pde: "prints_date_errors w"
    by (simp add: prints_all_def prints_date_errors_def)
  from scan_cells_total[OF assms(2) pde] obtain s w1
    where sc: "scan_cells year r empty_session w = (Inr s, w1)" by blast
  have hf: "has_field k s" for k
  proof -
    have "k \<in> set [ColSessionStart, ColStakes, ColTable, ColHands, ColDuration, ColWinloss]"
      by (cases k) simp_all
    with assms(1) have "\<exists>c \<in> set r. cell_column c = Some k
                          \<and> (k = ColSessionStart \<longrightarrow> cell_tooltip c \<noteq> None)"
      unfolding fully_populated_def list_all_iff list_ex_iff by blast
    then show ?thesis using scan_cells_has_field[OF sc] by blast
  qed
  from hf[of ColSessionStart] hf[of ColStakes] hf[of ColTable] hf[of ColHands]
    hf[of ColDuration] hf[of ColWinloss]
  have fields: "Date s \<noteq> None" "Stakes s \<noteq> None" "Table s \<noteq> None" "Game_Type s \<noteq> None"
    "Hands s \<noteq> None" "Duration s \<noteq> None" "Winloss s \<noteq> None"
    by simp_all
  then have ne: "session_nonempty s" by (simp add: session_nonempty_def)
  have st: "get_str (Stakes s) [] = get_str (row_stakes r) []"
    using scan_cells_Stakes[OF sc] by (simp add: empty_session_def split: option.splits)
  from fields(7) obtain x where x: "Winloss s = Some x" by blast
  obtain b y where b: "choose_buyin dflt s = Inr b" "py_add b (PyFloat x) = Inr (PyFloat y)"
  proof (cases "default_applies dflt")
    case True
    with assms(3) numeric_default_add[of dflt x] obtain y
      where "py_add (the dflt) (PyFloat x) = Inr (PyFloat y)" by blast
    with True that show ?thesis by (simp add: choose_buyin_def)
  next
    case False
    with assms(4) obtain a where "estimate_buyin_from_stakes (get_str (row_stakes r) []) = Inr a"
      by (cases "estimate_buyin_from_stakes (get_str (row_stakes r) [])") auto
    with False st that[of "PyFloat a" "fadd a x"] show ?thesis by (simp add: choose_buyin_def)
  qed
  let ?s = "s\<lparr>Buyin := Some b, Cashout := Some (PyFloat (float_round2 y))\<rparr>"
  have cs: "complete_session dflt s = Inr ?s"
    using b x by (simp add: complete_session_def winloss_or_0_def)
  from scan_cells_frame[OF sc] assms(5) have "print_error w1 (session_line idx ?s) = None"
    by (simp add: frame_def prints_all_def)
  then have "print (session_line idx ?s) w1
               = (Inr (), w1\<lparr>stdout := stdout w1 @ [session_line idx ?s]\<rparr>)"
    by (rule print_accepted)
  with sc ne cs have "process_row year dflt idx r acc w
                        = (Inr (acc @ [?s]), w1\<lparr>stdout := stdout w1 @ [session_line idx ?s]\<rparr>)"
    by (simp add: process_row_def)
  with fields show ?thesis by simp
qed

lemma convert_full_row:
  assumes "documents w html_file = Inr [r]" "fully_populated r" "numbers_parse r"
    and "default_applies dflt \<longrightarrow> numeric_default dflt"
    and "\<not> default_applies dflt \<longrightarrow> \<not> isl (estimate_buyin_from_stakes (get_str (row_stakes r) []))"
    and "prints_all w" "open_error w output_csv = None" "writes_all w output_csv"
  shows "\<exists>s. fst (convert_pokercraft_to_bink html_file output_csv year dflt location bankroll w)
               = Inr [s]
           \<and> csv_files (snd (convert_pokercraft_to_bink html_file output_csv year dflt
                               location bankroll w)) output_csv
               = Some [map PyStr fieldnames, csv_row location bankroll s]
           \<and> Date s \<noteq> None \<and> Stakes s \<noteq> None \<and> Table s \<noteq> None \<and> Game_Type s \<noteq> None
           \<and> Hands s \<noteq> None \<and> Duration s \<noteq> None \<and> Winloss s \<noteq> None
           \<and> Buyin s \<noteq> None \<and> Cashout s \<noteq> None"
proof -
  from full_row_session[OF assms(2-6), of year 0 "[]"] obtain s' w'
    where pr: "process_row year dflt 0 r [] w = (Inr [s'], w')"
      and fields: "Date s' \<noteq> None" "Stakes s' \<noteq> None" "Table s' \<noteq> None" "Game_Type s' \<noteq> None"
        "Hands s' \<noteq> None" "Duration s' \<noteq> None" "Winloss s' \<noteq> None"
        "Buyin s' \<noteq> None" "Cashout s' \<noteq> None"
    by auto
  from process_row_frame[OF pr] assms(6-8)
  have env: "open_error w' output_csv = None" "writes_all w' output_csv"
    "print_error w' (ConversionComplete 1 output_csv) = None"
    by (simp_all add: frame_def writes_all_def prints_all_def)
  let ?w = "w'\<lparr>csv_files := (csv_files w')
              (output_csv \<mapsto> map PyStr fieldnames # map (csv_row location bankroll) [s'])\<rparr>"
  have wr: "write_csv output_csv location bankroll [s'] w' = (Inr (), ?w)"
    using write_csv_written[OF env(1,2)] .
  have "print_error ?w (ConversionComplete 1 output_csv) = None"
    using env(3) by simp
  then have "print (ConversionComplete 1 output_csv) ?w
               = (Inr (), ?w\<lparr>stdout := stdout ?w @ [ConversionComplete 1 output_csv]\<rparr>)"
    by (rule print_accepted)
  with assms(1) pr wr
  have "convert_pokercraft_to_bink html_file output_csv year dflt location bankroll w
          = (Inr [s'], ?w\<lparr>stdout := stdout ?w @ [ConversionComplete 1 output_csv]\<rparr>)"
    by (simp add: convert_pokercraft_to_bink_def)
  with fields show ?thesis by simp
qed

lemma unwritable_examples:
  "fully_populated full_row" "numbers_parse full_row"
  "\<not> isl (estimate_buyin_from_stakes (get_str (row_stakes full_row) []))"
  "fst (convert_pokercraft_to_bink ''pokercraft_sessions.html'' [] (Some 2024) None
          ''Natural8'' ''Natural8'' (world_of [full_row])) = Inl FileNotFoundError"
  "csv_files (snd (convert_pokercraft_to_bink ''pokercraft_sessions.html'' [] (Some 2024) None
          ''Natural8'' ''Natural8'' (world_of [full_row]))) [] = None"
  "fst (convert_pokercraft_to_bink ''pokercraft_sessions.html'' ''bink_import.csv'' (Some 2024)
          None ''Natural8'' ''Natural8'' ((world_of [])\<lparr>print_error := closed_stream\<rparr>))
     = Inl ValueError"
  by code_simp+

text \<open>
  Claim C6, as stated: without marked rows the run returns an empty list, and with one
  fully populated row it returns one session record and writes the CSV file. Neither
  holds in every environment. With the fully populated row of the examples and an output
  path that cannot be opened (the empty path), \<^verbatim>\<open>open(output_csv, "w")\<close> raises: the
  run returns no session record and writes no file. On a closed output stream, the run on
  a document without marked rows raises at the \<^verbatim>\<open>print\<close> of the warning instead of
  returning the empty list.
\<close>

theorem unwritable_output_counterexample:
  "fully_populated full_row \<and> numbers_parse full_row
   \<and> \<not> isl (estimate_buyin_from_stakes (get_str (row_stakes full_row) []))
   \<and> fst (convert_pokercraft_to_bink ''pokercraft_sessions.html'' [] (Some 2024) None
          ''Natural8'' ''Natural8'' (world_of [full_row])) = Inl FileNotFoundError
   \<and> csv_files (snd (convert_pokercraft_to_bink ''pokercraft_sessions.html'' [] (Some 2024) None
          ''Natural8'' ''Natural8'' (world_of [full_row]))) [] = None
   \<and> fst (convert_pokercraft_to_bink ''pokercraft_sessions.html'' ''bink_import.csv'' (Some 2024)
          None ''Natural8'' ''Natural8'' ((world_of [])\<lparr>print_error := closed_stream\<rparr>))
       = Inl ValueError"
  using unwritable_examples by blast

text \<open>
  Claim C6, amended. When the document has no marked rows, or the scan of its rows leaves
  the accumulator empty (as it does when no cell of any row yields a field), the run
  leaves the CSV files as they were, none written, none created; it returns the empty
  list when the message it prints (the warning in the first case, the other message in
  the second) is written, and raises the exception of that \<^verbatim>\<open>print\<close> otherwise. With one
  fully populated row whose duration and win/loss texts parse and whose buy-in is
  available (a default that applies and is a float or an int in the range of the floats,
  or else stakes that the estimate accepts), in an environment where every line is
  printed and the output file can be opened and written, the run returns exactly one
  session record, every field of it set, and the output file holds exactly the header and
  one data record.
\<close>

theorem empty_and_single_row_runs:
  "(documents w html_file = Inr rows
      \<and> (rows = [] \<or> fst (scan_rows year dflt 0 rows [] w) = Inr []) \<longrightarrow>
      csv_files (snd (convert_pokercraft_to_bink html_file output_csv year dflt location
                        bankroll w)) = csv_files w
      \<and> (print_error w (if rows = [] then NoRowsWarning else NoSessions) = None \<longrightarrow>
           fst (convert_pokercraft_to_bink html_file output_csv year dflt location bankroll w)
             = Inr [])
      \<and> (\<forall>e. print_error w (if rows = [] then NoRowsWarning else NoSessions) = Some e \<longrightarrow>
           fst (convert_pokercraft_to_bink html_file output_csv year dflt location bankroll w)
             = Inl e))
   \<and> ((\<forall>r \<in> set rows. \<forall>c \<in> set r. \<not> yields_field c) \<longrightarrow>
      fst (scan_rows year dflt 0 rows [] w) = Inr [])
   \<and> (documents w html_file = Inr [r] \<and> fully_populated r \<and> numbers_parse r
      \<and> (default_applies dflt \<longrightarrow> numeric_default dflt)
      \<and> (\<not> default_applies dflt \<longrightarrow>
            \<not> isl (estimate_buyin_from_stakes (get_str (row_stakes r) [])))
      \<and> prints_all w \<and> open_error w output_csv = None \<and> writes_all w output_csv \<longrightarrow>
      (\<exists>s. fst (convert_pokercraft_to_bink html_file output_csv year dflt location bankroll w)
               = Inr [s]
           \<and> csv_files (snd (convert_pokercraft_to_bink html_file output_csv year dflt
                               location bankroll w)) output_csv
               = Some [map PyStr fieldnames, csv_row location bankroll s]
           \<and> Date s \<noteq> None \<and> Stakes s \<noteq> None \<and> Table s \<noteq> None \<and> Game_Type s \<noteq> None
           \<and> Hands s \<noteq> None \<and> Duration s \<noteq> None \<and> Winloss s \<noteq> None
           \<and> Buyin s \<noteq> None \<and> Cashout s \<noteq> None))"
proof (intro conjI impI allI)
  assume a: "documents w html_file = Inr rows
            \<and> (rows = [] \<or> fst (scan_rows year dflt 0 rows [] w) = Inr [])"
  then have d: "documents w html_file = Inr rows"
    and e: "rows = [] \<or> fst (scan_rows year dflt 0 rows [] w) = Inr []"
    by blast+
  show "csv_files (snd (convert_pokercraft_to_bink html_file output_csv year dflt location
                          bankroll w)) = csv_files w"
    using convert_empty_result(1)[OF d e] .
  {
    assume "print_error w (if rows = [] then NoRowsWarning else NoSessions) = None"
    then show "fst (convert_pokercraft_to_bink html_file output_csv year dflt location
                      bankroll w) = Inr []"
      using convert_empty_result(2)[OF d e] by blast
  }
  {
    fix e'
    assume "print_error w (if rows = [] then NoRowsWarning else NoSessions) = Some e'"
    then show "fst (convert_pokercraft_to_bink html_file output_csv year dflt location
                      bankroll w) = Inl e'"
      using convert_empty_result(3)[OF d e] by blast
  }
next
  assume "\<forall>r \<in> set rows. \<forall>c \<in> set r. \<not> yields_field c"
  then show "fst (scan_rows year dflt 0 rows [] w) = Inr []"
    by (simp add: scan_rows_no_field)
next
  assume "documents w html_file = Inr [r] \<and> fully_populated r \<and> numbers_parse r
      \<and> (default_applies dflt \<longrightarrow> numeric_default dflt)
      \<and> (\<not> default_applies dflt \<longrightarrow>
            \<not> isl (estimate_buyin_from_stakes (get_str (row_stakes r) [])))
      \<and> prints_all w \<and> open_error w output_csv = None \<and> writes_all w output_csv"
  then show "\<exists>s. fst (convert_pokercraft_to_bink html_file output_csv year dflt location bankroll w)
               = Inr [s]
           \<and> csv_files (snd (convert_pokercraft_to_bink html_file output_csv year dflt
                               location bankroll w)) output_csv
               = Some [map PyStr fieldnames, csv_row location bankroll s]
           \<and> Date s \<noteq> None \<and> Stakes s \<noteq> None \<and> Table s \<noteq> None \<and> Game_Type s \<noteq> None
           \<and> Hands s \<noteq> None \<and> Duration s \<noteq> None \<and> Winloss s \<noteq> None
           \<and> Buyin s \<noteq> None \<and> Cashout s \<noteq> None"
    using convert_full_row[of w html_file r dflt output_csv year location bankroll] by blast
qed

lemma single_row_examples:
  "\<forall>r \<in> set [unmarked_row]. \<forall>c \<in> set r. \<not> yields_field c"
  "default_applies (Some (PyInt 50))" "numeric_default (Some (PyInt 50))"
  "fst (run_on (Some (PyInt 50)) [full_row])
     = Inr [full_session\<lparr>Buyin := Some (PyInt 50), Cashout := Some (PyFloat (Finite 45))\<rparr>]"
  "print_error ((world_of [])\<lparr>print_error := closed_stream\<rparr>) NoRowsWarning = Some ValueError"
  "documents ((world_of [])\<lparr>print_error := closed_stream\<rparr>) ''pokercraft_sessions.html''
     = Inr []"
  by code_simp+

theorem empty_and_single_row_runs_witness:
  "(documents (world_of []) ''pokercraft_sessions.html'' = Inr []
    \<and> print_error (world_of []) NoRowsWarning = None
    \<and> fst (run_on None []) = Inr []
    \<and> csv_files (snd (run_on None [])) = csv_files (world_of []))
   \<and> (documents ((world_of [])\<lparr>print_error := closed_stream\<rparr>) ''pokercraft_sessions.html''
        = Inr []
    \<and> print_error ((world_of [])\<lparr>print_error := closed_stream\<rparr>) NoRowsWarning
        = Some ValueError
    \<and> fst (convert_pokercraft_to_bink ''pokercraft_sessions.html'' ''bink_import.csv''
              (Some 2024) None ''Natural8'' ''Natural8''
              ((world_of [])\<lparr>print_error := closed_stream\<rparr>)) = Inl ValueError
    \<and> csv_files (snd (convert_pokercraft_to_bink ''pokercraft_sessions.html''
              ''bink_import.csv'' (Some 2024) None ''Natural8'' ''Natural8''
              ((world_of [])\<lparr>print_error := closed_stream\<rparr>)))
        = csv_files ((world_of [])\<lparr>print_error := closed_stream\<rparr>))
   \<and> (\<not> yields_field (column_cell ''mat-column-Profit'' ''1.00'')
    \<and> documents (world_of [unmarked_row]) ''pokercraft_sessions.html'' = Inr [unmarked_row]
    \<and> print_error (world_of [unmarked_row]) NoSessions = None
    \<and> fst (scan_rows (Some 2024) None 0 [unmarked_row] [] (world_of [unmarked_row])) = Inr []
    \<and> fst (run_on None [unmarked_row]) = Inr []
    \<and> csv_files (snd (run_on None [unmarked_row])) = csv_files (world_of [unmarked_row]))
   \<and> (documents (world_of [full_row]) ''pokercraft_sessions.html'' = Inr [full_row]
    \<and> fully_populated full_row \<and> numbers_parse full_row \<and> \<not> default_applies None
    \<and> \<not> isl (estimate_buyin_from_stakes (get_str (row_stakes full_row) []))
    \<and> prints_all (world_of [full_row]) \<and> open_error (world_of [full_row]) ''bink_import.csv'' = None
    \<and> writes_all (world_of [full_row]) ''bink_import.csv''
    \<and> fst (run_on None [full_row]) = Inr [full_session]
    \<and> csv_files (snd (run_on None [full_row])) ''bink_import.csv''
        = Some [map PyStr fieldnames, csv_row ''Natural8'' ''Natural8'' full_session])
   \<and> (default_applies (Some (PyInt 50)) \<and> numeric_default (Some (PyInt 50))
    \<and> fst (run_on (Some (PyInt 50)) [full_row])
        = Inr [full_session\<lparr>Buyin := Some (PyInt 50), Cashout := Some (PyFloat (Finite 45))\<rparr>]
    \<and> csv_files (snd (run_on (Some (PyInt 50)) [full_row])) ''bink_import.csv''
        = Some [map PyStr fieldnames,
                csv_row ''Natural8'' ''Natural8''
                  (full_session\<lparr>Buyin := Some (PyInt 50),
                                 Cashout := Some (PyFloat (Finite 45))\<rparr>)])"
proof -
  let ?closed = "(world_of [])\<lparr>print_error := closed_stream\<rparr>"
  have d0: "documents (world_of []) ''pokercraft_sessions.html'' = Inr []"
    and d1: "documents (world_of [unmarked_row]) ''pokercraft_sessions.html'' = Inr [unmarked_row]"
    and d2: "documents (world_of [full_row]) ''pokercraft_sessions.html'' = Inr [full_row]"
    by (rule world_of_facts(1))+
  have p0: "print_error (world_of []) NoRowsWarning = None"
    and p1: "print_error (world_of [unmarked_row]) NoSessions = None"
    by (rule world_of_facts(6))+
  have e2: "prints_all (world_of [full_row])"
    "open_error (world_of [full_row]) ''bink_import.csv'' = None"
    "writes_all (world_of [full_row]) ''bink_import.csv''"
    by (rule world_of_facts)+
  have n: "\<not> default_applies None" by (simp add: default_applies_def)
  note t0 = empty_and_single_row_runs[where w = "world_of []"
      and html_file = "''pokercraft_sessions.html''" and rows = "[]" and year = "Some 2024"
      and dflt = None and output_csv = "''bink_import.csv''" and location = "''Natural8''"
      and bankroll = "''Natural8''", folded run_on_def, THEN conjunct1]
  note tc = empty_and_single_row_runs[where w = ?closed
      and html_file = "''pokercraft_sessions.html''" and rows = "[]" and year = "Some 2024"
      and dflt = None and output_csv = "''bink_import.csv''" and location = "''Natural8''"
      and bankroll = "''Natural8''", THEN conjunct1]
  note t1 = empty_and_single_row_runs[where w = "world_of [unmarked_row]"
      and html_file = "''pokercraft_sessions.html''" and rows = "[unmarked_row]"
      and year = "Some 2024" and dflt = None and output_csv = "''bink_import.csv''"
      and location = "''Natural8''" and bankroll = "''Natural8''", folded run_on_def]
  note t2 = empty_and_single_row_runs[where w = "world_of [full_row]"
      and html_file = "''pokercraft_sessions.html''" and r = full_row
      and year = "Some 2024" and dflt = None and output_csv = "''bink_import.csv''"
      and location = "''Natural8''" and bankroll = "''Natural8''", folded run_on_def,
      THEN conjunct2, THEN conjunct2]
  note t3 = empty_and_single_row_runs[where w = "world_of [full_row]"
      and html_file = "''pokercraft_sessions.html''" and r = full_row
      and year = "Some 2024" and dflt = "Some (PyInt 50)" and output_csv = "''bink_import.csv''"
      and location = "''Natural8''" and bankroll = "''Natural8''", folded run_on_def,
      THEN conjunct2, THEN conjunct2]
  have a: "fst (run_on None []) = Inr []"
    "csv_files (snd (run_on None [])) = csv_files (world_of [])"
    using t0 d0 p0 by simp_all
  have c: "fst (convert_pokercraft_to_bink ''pokercraft_sessions.html'' ''bink_import.csv''
              (Some 2024) None ''Natural8'' ''Natural8'' ?closed) = Inl ValueError"
    "csv_files (snd (convert_pokercraft_to_bink ''pokercraft_sessions.html''
              ''bink_import.csv'' (Some 2024) None ''Natural8'' ''Natural8'' ?closed))
            = csv_files ?closed"
    using tc single_row_examples(5,6) by simp_all
  have b1: "fst (scan_rows (Some 2024) None 0 [unmarked_row] [] (world_of [unmarked_row])) = Inr []"
    using t1[THEN conjunct2, THEN conjunct1] single_row_examples(1) by (rule mp)
  have "[unmarked_row] \<noteq> []" by simp
  then have b2: "fst (run_on None [unmarked_row]) = Inr []"
    "csv_files (snd (run_on None [unmarked_row])) = csv_files (world_of [unmarked_row])"
    using t1[THEN conjunct1] d1 b1 p1 by simp_all
  have "\<exists>s. fst (run_on None [full_row]) = Inr [s]
            \<and> csv_files (snd (run_on None [full_row])) ''bink_import.csv''
                = Some [map PyStr fieldnames, csv_row ''Natural8'' ''Natural8'' s]"
    using t2 d2 unwritable_examples(1-3) n e2 by blast
  then have f: "csv_files (snd (run_on None [full_row])) ''bink_import.csv''
                = Some [map PyStr fieldnames, csv_row ''Natural8'' ''Natural8'' full_session]"
    using run_full_row by auto
  have "\<exists>s. fst (run_on (Some (PyInt 50)) [full_row]) = Inr [s]
            \<and> csv_files (snd (run_on (Some (PyInt 50)) [full_row])) ''bink_import.csv''
                = Some [map PyStr fieldnames, csv_row ''Natural8'' ''Natural8'' s]"
    using t3 d2 unwritable_examples(1,2) single_row_examples(2,3) e2 by blast
  then have g: "csv_files (snd (run_on (Some (PyInt 50)) [full_row])) ''bink_import.csv''
        = Some [map PyStr fieldnames,
                csv_row ''Natural8'' ''Natural8''
                  (full_session\<lparr>Buyin := Some (PyInt 50),
                                 Cashout := Some (PyFloat (Finite 45))\<rparr>)]"
    using single_row_examples(4) by auto
  have y: "\<not> yields_field (column_cell ''mat-column-Profit'' ''1.00'')"
    using single_row_examples(1) by (simp add: unmarked_row_def)
  show ?thesis
    by (intro conjI)
      (rule a b1 b2 c f g n y d0 d1 d2 p0 p1 e2 unwritable_examples(1-3)
        single_row_examples(2-6) run_full_row)+
qed

section \<open>Malformed stakes and durations\<close>

lemma process_row_bad_duration:
  assumes "c \<in> set r" "cell_column c = Some ColDuration" "isl (parse_duration (cell_text c))"
  shows "isl (fst (process_row year dflt idx r acc w))"
proof -
  obtain res w1 where sc: "scan_cells year r empty_session w = (res, w1)"
    by (cases "scan_cells year r empty_session w")
  from scan_cells_bad_duration[OF assms, of year empty_session w] sc
  obtain e where "res = Inl e" by (cases res) auto
  with sc show ?thesis by (simp add: process_row_def)
qed

lemma process_row_bad_stakes:
  assumes "list_ex yields_field r" "\<not> default_applies dflt"
    and "isl (estimate_buyin_from_stakes (get_str (row_stakes r) []))"
  shows "isl (fst (process_row year dflt idx r acc w))"
proof -
  obtain res w1 where sc: "scan_cells year r empty_session w = (res, w1)"
    by (cases "scan_cells year r empty_session w")
  show ?thesis
  proof (cases res)
    case (Inl e)
    with sc show ?thesis by (simp add: process_row_def)
  next
    case (Inr s)
    from assms(1) obtain c k where "c \<in> set r" "cell_column c = Some k"
      "k = ColSessionStart \<longrightarrow> cell_tooltip c \<noteq> None"
      by (auto simp: list_ex_iff yields_field_def split: option.splits)
    then have "has_field k s"
      using scan_cells_has_field[OF sc[unfolded Inr], of k] by blast
    then have ne: "session_nonempty s" by (rule has_field_nonempty)
    have "get_str (Stakes s) [] = get_str (row_stakes r) []"
      using scan_cells_Stakes[OF sc[unfolded Inr]]
      by (simp add: empty_session_def split: option.splits)
    with assms(2,3) obtain e where "choose_buyin dflt s = Inl e"
      by (cases "estimate_buyin_from_stakes (get_str (row_stakes r) [])")
        (auto simp: choose_buyin_def)
    then have "complete_session dflt s = Inl e" by (simp add: complete_session_def)
    with sc Inr ne show ?thesis by (simp add: process_row_def)
  qed
qed

lemma scan_rows_row_fails:
  assumes "r \<in> set rs"
    and "\<And>idx acc w. isl (fst (process_row year dflt idx r acc w))"
  shows "isl (fst (scan_rows year dflt idx rs acc w))"
  using assms(1)
proof (induction rs arbitrary: idx acc w)
  case Nil
  then show ?case by simp
next
  case (Cons x xs)
  obtain res w1 where pr: "process_row year dflt idx x acc w = (res, w1)"
    by (cases "process_row year dflt idx x acc w")
  show ?case
  proof (cases res)
    case (Inl e)
    with pr show ?thesis by simp
  next
    case (Inr acc1)
    have "x \<noteq> r"
      using assms(2)[of idx acc w] pr Inr by auto
    with Cons.prems have "r \<in> set xs" by simp
    from Cons.IH[OF this, of "idx + 1" acc1 w1] pr Inr show ?thesis by simp
  qed
qed

lemma convert_row_fails:
  assumes "documents w html_file = Inr rows" "r \<in> set rows"
    and "\<And>idx acc w. isl (fst (process_row year dflt idx r acc w))"
  shows "isl (fst (convert_pokercraft_to_bink html_file output_csv year dflt location bankroll w))"
proof -
  obtain res w1 where sr: "scan_rows year dflt 0 rows [] w = (res, w1)"
    by (cases "scan_rows year dflt 0 rows [] w")
  from scan_rows_row_fails[OF assms(2,3), of 0 "[]" w] sr obtain e where "res = Inl e"
    by (cases res) auto
  moreover from assms(2) have "rows \<noteq> []" by auto
  ultimately show ?thesis
    using assms(1) sr by (simp add: convert_pokercraft_to_bink_def)
qed

text \<open>
  Claim C7, as stated: a malformed stakes string, such as the empty string of a row
  without a stakes cell, makes the whole run fail. It does not when \<^verbatim>\<open>default_buy_in\<close>
  applies: the row with a table cell only has no stakes, the estimate on the empty string
  raises, and the run with the default 50.0 returns its session.
\<close>

theorem malformed_stakes_counterexample:
  "row_stakes table_row = None
   \<and> estimate_buyin_from_stakes (get_str (row_stakes table_row) []) = Inl IndexError
   \<and> fst (run_on (Some (PyFloat (Finite 50))) [table_row]) = Inr [table_session]"
proof -
  have "row_stakes table_row = None"
    "estimate_buyin_from_stakes (get_str (row_stakes table_row) []) = Inl IndexError"
    by code_simp+
  with run_table_row_default show ?thesis by blast
qed

text \<open>
  Claim C7, amended: nothing in the pipeline catches what \<open>parse_duration\<close> or
  \<open>estimate_buyin_from_stakes\<close> raise. A duration cell whose text \<open>parse_duration\<close>
  rejects (a part that is not a number) makes the whole run raise, whatever the other rows
  are; so does, when \<^verbatim>\<open>default_buy_in\<close> is absent or false, a row that yields a field and
  whose stakes \<open>estimate_buyin_from_stakes\<close> rejects (the empty string when the row has
  no stakes cell); and every stakes string without a slash is rejected with an
  \<^verbatim>\<open>IndexError\<close>. When \<^verbatim>\<open>default_buy_in\<close> is given and true, no stakes text
  fails the run: provided writing the output file does not fail, with the stakes texts of
  the document replaced by any others the run raises the same exception or returns the
  same sessions, up to their \<^verbatim>\<open>Stakes\<close>.
\<close>

theorem malformed_input_fails_run:
  "(documents w html_file = Inr rows \<and> r \<in> set rows \<and> c \<in> set r
      \<and> cell_column c = Some ColDuration \<and> isl (parse_duration (cell_text c)) \<longrightarrow>
      isl (fst (convert_pokercraft_to_bink html_file output_csv year dflt location bankroll w)))
   \<and> (documents w html_file = Inr rows \<and> r \<in> set rows \<and> list_ex yields_field r
      \<and> \<not> default_applies dflt
      \<and> isl (estimate_buyin_from_stakes (get_str (row_stakes r) [])) \<longrightarrow>
      isl (fst (convert_pokercraft_to_bink html_file output_csv year dflt location bankroll w)))
   \<and> (CHR ''/'' \<notin> set stakes_str \<longrightarrow> estimate_buyin_from_stakes stakes_str = Inl IndexError)
   \<and> (default_applies dflt \<and> documents w html_file = Inr rows \<and> writes_all w output_csv \<longrightarrow>
      map_sum id (map erase_stakes)
        (fst (convert_pokercraft_to_bink html_file output_csv year dflt location bankroll
                (with_document html_file (map (restake f) rows) w)))
      = map_sum id (map erase_stakes)
          (fst (convert_pokercraft_to_bink html_file output_csv year dflt location bankroll w)))"
proof (intro conjI impI)
  assume a: "documents w html_file = Inr rows \<and> r \<in> set rows \<and> c \<in> set r
      \<and> cell_column c = Some ColDuration \<and> isl (parse_duration (cell_text c))"
  then have "\<And>idx acc w. isl (fst (process_row year dflt idx r acc w))"
    using process_row_bad_duration by blast
  with a show "isl (fst (convert_pokercraft_to_bink html_file output_csv year dflt location
                           bankroll w))"
    using convert_row_fails[of w html_file rows r year dflt] by blast
next
  assume a: "documents w html_file = Inr rows \<and> r \<in> set rows \<and> list_ex yields_field r
      \<and> \<not> default_applies dflt
      \<and> isl (estimate_buyin_from_stakes (get_str (row_stakes r) []))"
  then have "\<And>idx acc w. isl (fst (process_row year dflt idx r acc w))"
    using process_row_bad_stakes by blast
  with a show "isl (fst (convert_pokercraft_to_bink html_file output_csv year dflt location
                           bankroll w))"
    using convert_row_fails[of w html_file rows r year dflt] by blast
next
  assume "CHR ''/'' \<notin> set stakes_str"
  then show "estimate_buyin_from_stakes stakes_str = Inl IndexError"
    by (rule estimate_no_slash)
next
  assume "default_applies dflt \<and> documents w html_file = Inr rows \<and> writes_all w output_csv"
  then show "map_sum id (map erase_stakes)
        (fst (convert_pokercraft_to_bink html_file output_csv year dflt location bankroll
                (with_document html_file (map (restake f) rows) w)))
      = map_sum id (map erase_stakes)
          (fst (convert_pokercraft_to_bink html_file output_csv year dflt location bankroll w))"
    using convert_restake[of w html_file rows dflt output_csv year location bankroll f]
    by blast
qed

lemma malformed_examples:
  "cell_column (column_cell ''mat-column-Duration'' ''1h30'') = Some ColDuration"
  "isl (parse_duration (cell_text (column_cell ''mat-column-Duration'' ''1h30'')))"
  "list_ex yields_field table_row"
  "isl (estimate_buyin_from_stakes (get_str (row_stakes table_row) []))"
  "fst (run_on None [stakes_row, bad_duration_row]) = Inl ValueError"
  "fst (run_on None [stakes_row, table_row]) = Inl IndexError"
  by code_simp+

lemma restaked_examples:
  "default_applies (Some (PyFloat (Finite 50)))"
  "row_stakes bad_stakes_row = Some ''abc''"
  "estimate_buyin_from_stakes ''abc'' = Inl IndexError"
  "fst (run_on (Some (PyFloat (Finite 50))) [bad_stakes_row]) = Inr [bad_stakes_session]"
  "fst (convert_pokercraft_to_bink ''pokercraft_sessions.html'' ''bink_import.csv'' (Some 2024)
          (Some (PyFloat (Finite 50))) ''Natural8'' ''Natural8''
          (with_document ''pokercraft_sessions.html'' (map (restake ten_fifty) [bad_stakes_row])
             (world_of [bad_stakes_row])))
     = Inr [bad_stakes_session\<lparr>Stakes := Some ''0.25/0.5''\<rparr>]"
  by code_simp+

theorem malformed_input_fails_run_witness:
  "(documents (world_of [stakes_row, bad_duration_row]) ''pokercraft_sessions.html''
      = Inr [stakes_row, bad_duration_row]
    \<and> bad_duration_row \<in> set [stakes_row, bad_duration_row]
    \<and> column_cell ''mat-column-Duration'' ''1h30'' \<in> set bad_duration_row
    \<and> cell_column (column_cell ''mat-column-Duration'' ''1h30'') = Some ColDuration
    \<and> isl (parse_duration (cell_text (column_cell ''mat-column-Duration'' ''1h30'')))
    \<and> isl (fst (run_on None [stakes_row, bad_duration_row]))
    \<and> fst (run_on None [stakes_row, bad_duration_row]) = Inl ValueError)
   \<and> (documents (world_of [stakes_row, table_row]) ''pokercraft_sessions.html''
      = Inr [stakes_row, table_row]
    \<and> table_row \<in> set [stakes_row, table_row]
    \<and> list_ex yields_field table_row \<and> \<not> default_applies None
    \<and> isl (estimate_buyin_from_stakes (get_str (row_stakes table_row) []))
    \<and> isl (fst (run_on None [stakes_row, table_row]))
    \<and> fst (run_on None [stakes_row, table_row]) = Inl IndexError)
   \<and> (CHR ''/'' \<notin> set ''0.05'' \<and> estimate_buyin_from_stakes ''0.05'' = Inl IndexError)
   \<and> (default_applies (Some (PyFloat (Finite 50)))
    \<and> documents (world_of [bad_stakes_row]) ''pokercraft_sessions.html'' = Inr [bad_stakes_row]
    \<and> writes_all (world_of [bad_stakes_row]) ''bink_import.csv''
    \<and> row_stakes bad_stakes_row = Some ''abc''
    \<and> estimate_buyin_from_stakes ''abc'' = Inl IndexError
    \<and> map_sum id (map erase_stakes)
         (fst (convert_pokercraft_to_bink ''pokercraft_sessions.html'' ''bink_import.csv''
                 (Some 2024) (Some (PyFloat (Finite 50))) ''Natural8'' ''Natural8''
                 (with_document ''pokercraft_sessions.html''
                    (map (restake ten_fifty) [bad_stakes_row]) (world_of [bad_stakes_row]))))
        = map_sum id (map erase_stakes) (fst (run_on (Some (PyFloat (Finite 50))) [bad_stakes_row]))
    \<and> fst (run_on (Some (PyFloat (Finite 50))) [bad_stakes_row]) = Inr [bad_stakes_session]
    \<and> fst (convert_pokercraft_to_bink ''pokercraft_sessions.html'' ''bink_import.csv''
              (Some 2024) (Some (PyFloat (Finite 50))) ''Natural8'' ''Natural8''
              (with_document ''pokercraft_sessions.html''
                 (map (restake ten_fifty) [bad_stakes_row]) (world_of [bad_stakes_row])))
        = Inr [bad_stakes_session\<lparr>Stakes := Some ''0.25/0.5''\<rparr>])"
proof -
  have d1: "documents (world_of [stakes_row, bad_duration_row]) ''pokercraft_sessions.html''
              = Inr [stakes_row, bad_duration_row]"
    and d2: "documents (world_of [stakes_row, table_row]) ''pokercraft_sessions.html''
              = Inr [stakes_row, table_row]"
    and d3: "documents (world_of [bad_stakes_row]) ''pokercraft_sessions.html''
              = Inr [bad_stakes_row]"
    by (rule world_of_facts(1))+
  have wa: "writes_all (world_of [bad_stakes_row]) ''bink_import.csv''"
    by (rule world_of_facts(4))
  have m1: "bad_duration_row \<in> set [stakes_row, bad_duration_row]"
    and m2: "column_cell ''mat-column-Duration'' ''1h30'' \<in> set bad_duration_row"
    and m3: "table_row \<in> set [stakes_row, table_row]"
    and m4: "CHR ''/'' \<notin> set ''0.05''"
    by (simp_all add: bad_duration_row_def)
  have n: "\<not> default_applies None" by (simp add: default_applies_def)
  note t1 = malformed_input_fails_run[where w = "world_of [stakes_row, bad_duration_row]"
      and html_file = "''pokercraft_sessions.html''" and rows = "[stakes_row, bad_duration_row]"
      and r = bad_duration_row and c = "column_cell ''mat-column-Duration'' ''1h30''"
      and year = "Some 2024" and dflt = None and output_csv = "''bink_import.csv''"
      and location = "''Natural8''" and bankroll = "''Natural8''" and stakes_str = "''0.05''",
      folded run_on_def]
  note t2 = malformed_input_fails_run[where w = "world_of [stakes_row, table_row]"
      and html_file = "''pokercraft_sessions.html''" and rows = "[stakes_row, table_row]"
      and r = table_row and year = "Some 2024" and dflt = None
      and output_csv = "''bink_import.csv''" and location = "''Natural8''"
      and bankroll = "''Natural8''", folded run_on_def]
  note t3 = malformed_input_fails_run[where w = "world_of [bad_stakes_row]"
      and html_file = "''pokercraft_sessions.html''" and rows = "[bad_stakes_row]"
      and year = "Some 2024" and dflt = "Some (PyFloat (Finite 50))" and f = ten_fifty
      and output_csv = "''bink_import.csv''" and location = "''Natural8''"
      and bankroll = "''Natural8''", folded run_on_def,
      THEN conjunct2, THEN conjunct2, THEN conjunct2]
  have a: "isl (fst (run_on None [stakes_row, bad_duration_row]))"
    using t1[THEN conjunct1] d1 m1 m2 malformed_examples(1,2) by blast
  have b: "isl (fst (run_on None [stakes_row, table_row]))"
    using t2[THEN conjunct2, THEN conjunct1] d2 m3 n malformed_examples(3,4) by blast
  have c: "estimate_buyin_from_stakes ''0.05'' = Inl IndexError"
    using t1[THEN conjunct2, THEN conjunct2, THEN conjunct1] m4 by (rule mp)
  have e: "map_sum id (map erase_stakes)
         (fst (convert_pokercraft_to_bink ''pokercraft_sessions.html'' ''bink_import.csv''
                 (Some 2024) (Some (PyFloat (Finite 50))) ''Natural8'' ''Natural8''
                 (with_document ''pokercraft_sessions.html''
                    (map (restake ten_fifty) [bad_stakes_row]) (world_of [bad_stakes_row]))))
        = map_sum id (map erase_stakes) (fst (run_on (Some (PyFloat (Finite 50))) [bad_stakes_row]))"
    using t3 restaked_examples(1) d3 wa by blast
  show ?thesis
    by (intro conjI)
      (rule a b c e d1 d2 d3 wa m1 m2 m3 m4 n malformed_examples restaked_examples)+
qed

end
